theory Spec2Isabelle
  imports Complex_Main
begin

section \<open>Python values\<close>

text \<open>
  The values that \<open>response.json()\<close> and \<open>json.loads\<close> hand to \<open>handler.py\<close>.
  \<open>JNull\<close> is Python's \<open>None\<close>. A dict is the list of its items in insertion order,
  the first item of a key being the one a lookup finds. Of a float the handler only ever
  observes whether it is zero, so a float is idealised as a real number.
  Characters are bytes: the comma is one byte, and no byte of a multi-byte UTF-8
  sequence equals it, so splitting at commas agrees with Python's split on code points.
\<close>

datatype json =
    JNull
  | JBool bool
  | JInt int
  | JFloat real
  | JStr string
  | JArr "json list"
  | JObj "(string \<times> json) list"

datatype exn =
    RequestQuotaExceededError
  | HTTPError nat string
  | TransportError
  | JSONDecodeError
  | AttributeError
  | TypeError
  | KeyError
  | FileNotFoundError
  | ConfigurationError

text \<open>Truth value testing, as \<open>if location\<close> and \<open>coords[0] and coords[1]\<close> perform it.\<close>

fun truthy :: "json \<Rightarrow> bool" where
  "truthy JNull = False"
| "truthy (JBool b) = b"
| "truthy (JInt i) = (i \<noteq> 0)"
| "truthy (JFloat r) = (r \<noteq> 0)"
| "truthy (JStr s) = (s \<noteq> [])"
| "truthy (JArr xs) = (xs \<noteq> [])"
| "truthy (JObj d) = (d \<noteq> [])"

text \<open>\<open>d.get(k)\<close> on a dict: the value, or \<open>None\<close> when the key is missing.\<close>

definition dict_get :: "(string \<times> json) list \<Rightarrow> string \<Rightarrow> json" where
  "dict_get d k = (case map_of d k of None \<Rightarrow> JNull | Some v \<Rightarrow> v)"

text \<open>\<open>d[k] = v\<close>: an existing key keeps its position, a new key goes to the end.\<close>

fun setitem :: "string \<Rightarrow> json \<Rightarrow> (string \<times> json) list \<Rightarrow> (string \<times> json) list" where
  "setitem k v [] = [(k, v)]"
| "setitem k v ((k', v') # d) =
     (if k' = k then (k, v) # d else (k', v') # setitem k v d)"

text \<open>\<open>s.split(sep)\<close> for a one-character separator: never an empty list.\<close>

fun split :: "char \<Rightarrow> string \<Rightarrow> string list" where
  "split sep [] = [[]]"
| "split sep (c # cs) =
     (if c = sep then [] # split sep cs
      else (case split sep cs of
              [] \<Rightarrow> [[c]]
            | p # ps \<Rightarrow> (c # p) # ps))"

section \<open>The detail enricher\<close>

text \<open>
  \<open>Handler._read_coords\<close>. Only a \<open>str\<close> has \<open>split\<close>: any other truthy
  \<open>location\<close> raises \<open>AttributeError\<close>. A falsy one of any type gives \<open>coords = ""\<close>,
  of length 0.
\<close>

definition read_coords :: "json \<Rightarrow> exn + (json \<times> json)" where
  "read_coords location =
     (if truthy location then
        (case location of
           JStr s \<Rightarrow>
             (let coords = split (CHR '','') s in
              if length coords = 2 \<and> truthy (JStr (coords ! 0)) \<and> truthy (JStr (coords ! 1))
              then Inr (JStr (coords ! 0), JStr (coords ! 1))
              else Inr (JNull, JNull))
         | _ \<Rightarrow> Inl AttributeError)
      else Inr (JNull, JNull))"

text \<open>
  \<open>self.countries.get(key)\<close>, where \<open>self.countries\<close> is whatever \<open>json.loads\<close>
  returned. Only a dict has \<open>get\<close>. Its keys are strings; a list or a dict as the key is
  unhashable (\<open>TypeError\<close>); \<open>None\<close>, a boolean or a number is hashable and equals no key.
\<close>

definition countries_get :: "json \<Rightarrow> json \<Rightarrow> exn + json" where
  "countries_get countries key =
     (case countries of
        JObj c \<Rightarrow>
          (case key of
             JStr s \<Rightarrow> Inr (dict_get c s)
           | JArr _ \<Rightarrow> Inl TypeError
           | JObj _ \<Rightarrow> Inl TypeError
           | _ \<Rightarrow> Inr JNull)
      | _ \<Rightarrow> Inl AttributeError)"

text \<open>
  Lines 47 to 50 of \<open>Handler.getDetails\<close>, on the value \<open>raw_details\<close> is bound to.
  The statements write into that object one after the other, so the result is the
  exception raised, if any, together with the object as the statements executed so far
  have left it: \<open>country_name\<close> is already written when \<open>_read_coords\<close> raises.
  \<open>raw_details.get\<close> needs a dict; \<open>self.countries.get\<close> is looked up before its
  argument is evaluated, and both failures are an \<open>AttributeError\<close>.
\<close>

definition getDetails_enrich :: "json \<Rightarrow> json \<Rightarrow> exn option \<times> json" where
  "getDetails_enrich countries raw_details =
     (case raw_details of
        JObj d \<Rightarrow>
          (case countries_get countries (dict_get d ''country'') of
             Inl e \<Rightarrow> (Some e, JObj d)
           | Inr name \<Rightarrow>
               (let d1 = setitem ''country_name'' name d in
                case read_coords (dict_get d1 ''loc'') of
                  Inl e \<Rightarrow> (Some e, JObj d1)
                | Inr (lat, lon) \<Rightarrow>
                    (None, JObj (setitem ''longitude'' lon (setitem ''latitude'' lat d1)))))
      | _ \<Rightarrow> (Some AttributeError, raw_details))"

text \<open>
  The shape the specification asks of \<open>loc\<close>: exactly one comma, separating two
  non-empty substrings \<open>a\<close> and \<open>b\<close>.
\<close>

definition loc_shape :: "string \<Rightarrow> string \<Rightarrow> string \<Rightarrow> bool" where
  "loc_shape s a b \<longleftrightarrow>
     s = a @ CHR '','' # b \<and> a \<noteq> [] \<and> b \<noteq> [] \<and>
     CHR '','' \<notin> set a \<and> CHR '','' \<notin> set b"

section \<open>The handler and its collaborators\<close>

text \<open>The class constants of \<open>Handler\<close>, and the version \<open>setup.py\<close> declares.\<close>

definition API_URL :: string where
  "API_URL = ''https://ipinfo.io''"

definition CACHE_MAXSIZE :: nat where
  "CACHE_MAXSIZE = 4096"

definition CACHE_TTL :: nat where
  "CACHE_TTL = 60 * 60 * 24"

definition COUNTRY_FILE_DEFAULT :: string where
  "COUNTRY_FILE_DEFAULT = ''countries.json''"

definition REQUEST_TIMEOUT_DEFAULT :: int where
  "REQUEST_TIMEOUT_DEFAULT = 2"

definition setup_version :: string where
  "setup_version = ''2.0.0''"

text \<open>
  The attributes \<open>__init__\<close> sets, except the cache, which changes and lives in the
  world below. \<open>version_major\<close> is \<open>sys.version_info[0]\<close> of the interpreter
  the handler runs in. An access token is a string or \<open>None\<close>.
\<close>

record handler =
  access_token :: "string option"
  countries :: json
  request_options :: "(string \<times> json) list"
  version_major :: nat

text \<open>Decimal digits of a natural number, as \<open>format\<close> prints an \<open>int\<close>.\<close>

function str_nat :: "nat \<Rightarrow> string" where
  "str_nat n =
     (if n < 10 then [''0123456789'' ! n]
      else str_nat (n div 10) @ [''0123456789'' ! (n mod 10)])"
  by pat_completeness auto
termination
  by (relation "measure id") auto

declare str_nat.simps [simp del]

text \<open>\<open>Handler._get_headers\<close>. An empty token is falsy, like \<open>None\<close>.\<close>

definition get_headers :: "handler \<Rightarrow> (string \<times> string) list" where
  "get_headers h =
     (let headers =
        [(''user-agent'', ''IPinfoClient/Python'' @ str_nat (version_major h) @ ''/2.0.0''),
         (''accept'', ''application/json'')]
      in case access_token h of
           None \<Rightarrow> headers
         | Some token \<Rightarrow>
             if token \<noteq> [] then headers @ [(''authorization'', ''Bearer '' @ token)]
             else headers)"

subsection \<open>The cache\<close>

text \<open>
  Modelled from the spec: \<open>DefaultCache\<close> of \<open>ipinfo/cache/default.py\<close>, which is not
  among the sources. The specification describes a bounded, time-expiring store with
  \<open>contains\<close>, \<open>get\<close> and \<open>set\<close>: an entry older than the time to live is treated as
  absent, and an insertion at capacity evicts the least recently used entry.
  The entries are kept most recently used first, each key once, with the time at which
  the entry expires. As everywhere in Python, the value of an entry is a reference to
  an object: the store keeps the reference it is handed and hands the same one out.
  The lookup key is \<open>ip_address\<close> as given: \<open>None\<close> or a string.
\<close>

type_synonym addr = nat

record ttl_cache =
  maxsize :: nat
  ttl :: nat
  entries :: "(string option \<times> (addr \<times> nat)) list"

definition DefaultCache :: "nat \<Rightarrow> nat \<Rightarrow> ttl_cache" where
  "DefaultCache m t = \<lparr>maxsize = m, ttl = t, entries = []\<rparr>"

definition cache_lookup :: "ttl_cache \<Rightarrow> nat \<Rightarrow> string option \<Rightarrow> addr option" where
  "cache_lookup c now k =
     (case map_of (entries c) k of
        None \<Rightarrow> None
      | Some (a, expires) \<Rightarrow> if now < expires then Some a else None)"

definition cache_contains :: "ttl_cache \<Rightarrow> nat \<Rightarrow> string option \<Rightarrow> bool" where
  "cache_contains c now k \<longleftrightarrow> cache_lookup c now k \<noteq> None"

definition cache_getitem ::
  "ttl_cache \<Rightarrow> nat \<Rightarrow> string option \<Rightarrow> (exn + addr) \<times> ttl_cache" where
  "cache_getitem c now k =
     (case map_of (entries c) k of
        None \<Rightarrow> (Inl KeyError, c)
      | Some (a, expires) \<Rightarrow>
          if now < expires
          then (Inr a, c\<lparr>entries := (k, (a, expires)) # filter (\<lambda>e. fst e \<noteq> k) (entries c)\<rparr>)
          else (Inl KeyError, c))"

definition cache_setitem :: "ttl_cache \<Rightarrow> nat \<Rightarrow> string option \<Rightarrow> addr \<Rightarrow> ttl_cache" where
  "cache_setitem c now k a =
     c\<lparr>entries :=
         take (maxsize c)
           ((k, (a, now + ttl c))
            # filter (\<lambda>e. fst e \<noteq> k \<and> now < snd (snd e)) (entries c))\<rparr>"

subsection \<open>The transport and the world\<close>

text \<open>
  A call of \<open>requests.get\<close> is recorded with its URL, its headers and the options passed
  through. What comes back is an exception of the transport or a response;
  \<open>body_json\<close> is what \<open>response.json()\<close> makes of the body, \<open>None\<close> when it raises.
\<close>

record request =
  url :: string
  headers :: "(string \<times> string) list"
  options :: "(string \<times> json) list"

record response =
  status_code :: nat
  text_body :: string
  body_json :: "json option"

text \<open>
  The mutable state: the objects parsed from response bodies, each at its address, the
  next free address, the cache, and the calls of \<open>requests.get\<close> so far, in order.
\<close>

record world =
  heap :: "addr \<Rightarrow> json"
  next_addr :: addr
  cache :: ttl_cache
  sent :: "request list"

text \<open>
  Modelled from the spec: \<open>Details\<close> of \<open>ipinfo/details.py\<close>, which is not among the
  sources: a read-only view of the dict it is constructed with.
\<close>

datatype details = Details addr

text \<open>\<open>return self.cache[ip_address]\<close>\<close>

definition cache_read :: "nat \<Rightarrow> string option \<Rightarrow> world \<Rightarrow> (exn + addr) \<times> world" where
  "cache_read now k w =
     (case cache_getitem (cache w) now k of (r, c) \<Rightarrow> (r, w\<lparr>cache := c\<rparr>))"

text \<open>The URL \<open>_requestDetails\<close> builds: an empty address is falsy and adds nothing.\<close>

definition request_url :: "string option \<Rightarrow> string" where
  "request_url ip_address =
     API_URL @ (case ip_address of
                  None \<Rightarrow> []
                | Some a \<Rightarrow> if a \<noteq> [] then ''/'' @ a else [])"

text \<open>
  \<open>Handler._requestDetails\<close>. The whole call happens at the time \<open>now\<close>, on the
  clock of the cache; \<open>reply\<close> is what the transport answers if it is asked.
  \<open>headers\<close> is passed by keyword next to \<open>**self.request_options\<close>, so an option
  of that name is a \<open>TypeError\<close> of the call itself.
  \<open>response.raise_for_status()\<close> of the requests library raises its \<open>HTTPError\<close>,
  which holds the response, for a status from 400 to 599 and returns otherwise.
\<close>

definition requestDetails ::
  "handler \<Rightarrow> nat \<Rightarrow> exn + response \<Rightarrow> string option \<Rightarrow> world \<Rightarrow> (exn + addr) \<times> world" where
  "requestDetails h now reply ip_address w =
     (if \<not> cache_contains (cache w) now ip_address then
        (let u = request_url ip_address
         in if ''headers'' \<in> fst ` set (request_options h) then (Inl TypeError, w)
            else
              (let w1 = w\<lparr>sent := sent w @
                          [\<lparr>url = u, headers = get_headers h, options = request_options h\<rparr>]\<rparr>
               in case reply of
                    Inl e \<Rightarrow> (Inl e, w1)
                  | Inr r \<Rightarrow>
                      if status_code r = 429 then (Inl RequestQuotaExceededError, w1)
                      else if 400 \<le> status_code r \<and> status_code r < 600
                      then (Inl (HTTPError (status_code r) (text_body r)), w1)
                      else
                        (case body_json r of
                           None \<Rightarrow> (Inl JSONDecodeError, w1)
                         | Some v \<Rightarrow>
                             (let a = next_addr w1 in
                              cache_read now ip_address
                                (w1\<lparr>heap := (heap w1)(a := v),
                                    next_addr := Suc a,
                                    cache := cache_setitem (cache w1) now ip_address a\<rparr>)))))
      else cache_read now ip_address w)"

text \<open>
  \<open>Handler.getDetails\<close>: the enrichment writes into the object \<open>_requestDetails\<close>
  returned, which is the object the cache holds.
\<close>

definition getDetails ::
  "handler \<Rightarrow> nat \<Rightarrow> exn + response \<Rightarrow> string option \<Rightarrow> world \<Rightarrow> (exn + details) \<times> world" where
  "getDetails h now reply ip_address w =
     (case requestDetails h now reply ip_address w of
        (Inl e, w1) \<Rightarrow> (Inl e, w1)
      | (Inr a, w1) \<Rightarrow>
          (case getDetails_enrich (countries h) (heap w1 a) of
             (err, v) \<Rightarrow>
               (let w2 = w1\<lparr>heap := (heap w1)(a := v)\<rparr>
                in case err of
                     Some e \<Rightarrow> (Inl e, w2)
                   | None \<Rightarrow> (Inr (Details a), w2))))"

text \<open>The record a successful call returned, as it stands in the world.\<close>

definition details_all :: "world \<Rightarrow> details \<Rightarrow> json" where
  "details_all w d = (case d of Details a \<Rightarrow> heap w a)"

text \<open>The object the cache holds for a key at a time, if any.\<close>

definition cached_value :: "world \<Rightarrow> nat \<Rightarrow> string option \<Rightarrow> json option" where
  "cached_value w now k = map_option (heap w) (cache_lookup (cache w) now k)"

subsection \<open>Construction\<close>

text \<open>
  What \<open>__init__\<close> reads from its surroundings: the directory of the package, the
  readable files with their contents, \<open>json.loads\<close> (\<open>None\<close> where it raises its
  decoding error) and the major version of the interpreter.
\<close>

record environment =
  package_dir :: string
  files :: "string \<Rightarrow> string option"
  json_loads :: "string \<Rightarrow> json option"
  python_major :: nat

record kwargs =
  kw_countries_file :: "string option"
  kw_request_options :: "(string \<times> json) list option"
  kw_cache :: "ttl_cache option"
  kw_cache_options :: "(string \<times> nat) list option"

text \<open>\<open>os.path.join\<close> of a directory and a relative file name.\<close>

definition path_join :: "string \<Rightarrow> string \<Rightarrow> string" where
  "path_join a b =
     (if a = [] then b else if last a = CHR ''/'' then a @ b else a @ ''/'' @ b)"

text \<open>
  \<open>Handler._read_country_names\<close>: the file is the one given, or the default one
  beside the module when none (or an empty name) is given. \<open>open\<close> raises for a file
  that is not there, \<open>json.loads\<close> for a text that is not JSON, and nothing catches
  either.
\<close>

definition country_file :: "environment \<Rightarrow> string option \<Rightarrow> string" where
  "country_file env countries_file =
     (case countries_file of
        None \<Rightarrow> path_join (package_dir env) COUNTRY_FILE_DEFAULT
      | Some f \<Rightarrow> if f \<noteq> [] then f
                  else path_join (package_dir env) COUNTRY_FILE_DEFAULT)"

definition read_country_names :: "environment \<Rightarrow> string option \<Rightarrow> exn + json" where
  "read_country_names env countries_file =
     (let file = country_file env countries_file
      in case files env file of
           None \<Rightarrow> Inl FileNotFoundError
         | Some countries_json \<Rightarrow>
             (case json_loads env countries_json of
                None \<Rightarrow> Inl JSONDecodeError
              | Some v \<Rightarrow> Inr v))"

text \<open>\<open>Handler.__init__\<close>: the handler and the cache it starts with.\<close>

definition Handler_init ::
  "environment \<Rightarrow> string option \<Rightarrow> kwargs \<Rightarrow> exn + (handler \<times> ttl_cache)" where
  "Handler_init env token kw =
     (case read_country_names env (kw_countries_file kw) of
        Inl e \<Rightarrow> Inl e
      | Inr c \<Rightarrow>
          (let ro = (case kw_request_options kw of None \<Rightarrow> [] | Some r \<Rightarrow> r);
               ro' = (if ''timeout'' \<in> fst ` set ro then ro
                      else ro @ [(''timeout'', JInt REQUEST_TIMEOUT_DEFAULT)]);
               ca = (case kw_cache kw of
                       Some given \<Rightarrow> given
                     | None \<Rightarrow>
                         (let cache_options =
                                (case kw_cache_options kw of None \<Rightarrow> [] | Some co \<Rightarrow> co);
                              m = (case map_of cache_options ''maxsize'' of
                                     None \<Rightarrow> CACHE_MAXSIZE | Some x \<Rightarrow> x);
                              t = (case map_of cache_options ''ttl'' of
                                     None \<Rightarrow> CACHE_TTL | Some x \<Rightarrow> x)
                          in DefaultCache m t))
           in Inr (\<lparr>access_token = token, countries = c, request_options = ro',
                     version_major = python_major env\<rparr>, ca)))"

subsection \<open>The scenario of the specification\<close>

text \<open>
  A handler without a token and with the table \<open>{"US": "United States"}\<close>, an empty
  default cache, and a stub transport answering, with some status, the body
  \<open>{"ip": "8.8.8.8", "country": "US", "loc": "37.751,-97.822"}\<close>.
\<close>

definition stub_handler :: handler where
  "stub_handler =
     \<lparr>access_token = None,
      countries = JObj [(''US'', JStr ''United States'')],
      request_options = [(''timeout'', JInt 2)],
      version_major = 3\<rparr>"

definition stub_raw :: json where
  "stub_raw =
     JObj [(''ip'', JStr ''8.8.8.8''), (''country'', JStr ''US''),
           (''loc'', JStr ''37.751,-97.822'')]"

definition stub_response :: "nat \<Rightarrow> response" where
  "stub_response status =
     \<lparr>status_code = status,
      text_body = ''{\"ip\": \"8.8.8.8\", \"country\": \"US\", \"loc\": \"37.751,-97.822\"}'',
      body_json = Some stub_raw\<rparr>"

text \<open>An answer that has neither a country nor a location.\<close>

definition bare_response :: response where
  "bare_response =
     \<lparr>status_code = 200,
      text_body = ''{\"ip\": \"8.8.8.8\"}'',
      body_json = Some (JObj [(''ip'', JStr ''8.8.8.8'')])\<rparr>"

definition fresh_world :: world where
  "fresh_world =
     \<lparr>heap = (\<lambda>_. JNull), next_addr = 0,
      cache = DefaultCache CACHE_MAXSIZE CACHE_TTL, sent = []\<rparr>"

definition stub_environment :: environment where
  "stub_environment =
     \<lparr>package_dir = ''/site-packages/ipinfo'',
      files = (\<lambda>_. None),
      json_loads = (\<lambda>_. None),
      python_major = 3\<rparr>"

definition no_kwargs :: kwargs where
  "no_kwargs =
     \<lparr>kw_countries_file = None, kw_request_options = None,
      kw_cache = None, kw_cache_options = None\<rparr>"

subsection \<open>Shapes of the raw fields\<close>

text \<open>
  The country code is known when the table is a dict and the code is one of its keys.
  A value can be a dict key when it is hashable: not a list and not a dict. The
  coordinates can be read from a value that is a string or falsy.
\<close>

definition country_known :: "json \<Rightarrow> json \<Rightarrow> bool" where
  "country_known cs v =
     (case cs of
        JObj c \<Rightarrow> (case v of JStr code \<Rightarrow> map_of c code \<noteq> None | _ \<Rightarrow> False)
      | _ \<Rightarrow> False)"

definition hashable :: "json \<Rightarrow> bool" where
  "hashable v = (case v of JArr _ \<Rightarrow> False | JObj _ \<Rightarrow> False | _ \<Rightarrow> True)"

definition str_or_falsy :: "json \<Rightarrow> bool" where
  "str_or_falsy v = (case v of JStr _ \<Rightarrow> True | _ \<Rightarrow> \<not> truthy v)"

section \<open>Splitting at the separator\<close>

lemma split_not_Nil: "split sep s \<noteq> []"
  by (induction s) (auto split: list.splits)

lemma split_no_sep: "sep \<notin> set s \<Longrightarrow> split sep s = [s]"
  by (induction s) auto

lemma split_append_sep:
  "sep \<notin> set a \<Longrightarrow> split sep (a @ sep # b) = a # split sep b"
  by (induction a) auto

lemma split_singleton_iff: "split sep s = [a] \<longleftrightarrow> s = a \<and> sep \<notin> set a"
proof (induction s arbitrary: a)
  case Nil
  show ?case by auto
next
  case (Cons c cs)
  show ?case
  proof (cases "c = sep")
    case True
    then show ?thesis using split_not_Nil [of sep cs] by auto
  next
    case False
    obtain p ps where sp: "split sep cs = p # ps"
      using split_not_Nil [of sep cs] by (cases "split sep cs") auto
    show ?thesis
    proof (cases ps)
      case Nil
      with sp have "cs = p \<and> sep \<notin> set p" using Cons.IH [of p] by simp
      with False sp Nil show ?thesis by auto
    next
      case (Cons q qs)
      have "split sep cs \<noteq> [tl a]" using sp Cons by simp
      then have "\<not> (cs = tl a \<and> sep \<notin> set (tl a))" using Cons.IH [of "tl a"] by simp
      with False sp Cons show ?thesis by auto
    qed
  qed
qed

lemma split_pair_iff:
  "split sep s = [a, b] \<longleftrightarrow> s = a @ sep # b \<and> sep \<notin> set a \<and> sep \<notin> set b"
proof (induction s arbitrary: a)
  case Nil
  show ?case by auto
next
  case (Cons c cs)
  show ?case
  proof (cases "c = sep")
    case True
    have "split sep (c # cs) = [a, b] \<longleftrightarrow> a = [] \<and> split sep cs = [b]"
      using True by auto
    also have "\<dots> \<longleftrightarrow> a = [] \<and> cs = b \<and> sep \<notin> set b"
      by (simp add: split_singleton_iff)
    also have "\<dots> \<longleftrightarrow> c # cs = a @ sep # b \<and> sep \<notin> set a \<and> sep \<notin> set b"
      using True by (cases a) auto
    finally show ?thesis .
  next
    case False
    obtain p ps where sp: "split sep cs = p # ps"
      using split_not_Nil [of sep cs] by (cases "split sep cs") auto
    have "split sep (c # cs) = [a, b] \<longleftrightarrow> a = c # p \<and> ps = [b]"
      using False sp by auto
    also have "\<dots> \<longleftrightarrow> (\<exists>a'. a = c # a' \<and> split sep cs = [a', b])"
      using sp by auto
    also have "\<dots> \<longleftrightarrow> (\<exists>a'. a = c # a' \<and> cs = a' @ sep # b \<and> sep \<notin> set a' \<and> sep \<notin> set b)"
      using Cons.IH by simp
    also have "\<dots> \<longleftrightarrow> c # cs = a @ sep # b \<and> sep \<notin> set a \<and> sep \<notin> set b"
      using False by (cases a) auto
    finally show ?thesis .
  qed
qed

lemma length2_iff: "length xs = 2 \<longleftrightarrow> (\<exists>a b. xs = [a, b])"
  by (cases xs; cases "tl xs"; cases "tl (tl xs)") auto

lemma loc_shape_of_split:
  assumes h: "length (split (CHR '','') s) = 2 \<and> split (CHR '','') s ! 0 \<noteq> []
            \<and> split (CHR '','') s ! 1 \<noteq> []"
  shows "\<exists>a b. loc_shape s a b"
proof -
  from h have "\<exists>a b. split (CHR '','') s = [a, b]"
    by (simp only: length2_iff)
  then obtain a b where ab: "split (CHR '','') s = [a, b]"
    by (elim exE)
  have "s = a @ CHR '','' # b \<and> CHR '','' \<notin> set a \<and> CHR '','' \<notin> set b"
    by (rule split_pair_iff [THEN iffD1, OF ab])
  moreover from h ab have "a \<noteq> [] \<and> b \<noteq> []" by simp
  ultimately have "loc_shape s a b"
    by (simp add: loc_shape_def)
  then show ?thesis by blast
qed

lemma split_of_loc_shape: "loc_shape s a b \<Longrightarrow> split (CHR '','') s = [a, b]"
  by (rule split_pair_iff [THEN iffD2]) (simp add: loc_shape_def)

lemma read_coords_str:
  "read_coords (JStr s) =
     (if \<exists>a b. loc_shape s a b
      then Inr (JStr (split (CHR '','') s ! 0), JStr (split (CHR '','') s ! 1))
      else Inr (JNull, JNull))"
proof (cases "\<exists>a b. loc_shape s a b")
  case True
  then obtain a b where ab: "loc_shape s a b" by blast
  have sp: "split (CHR '','') s = [a, b]"
    by (rule split_of_loc_shape [OF ab])
  from ab have ne: "a \<noteq> [] \<and> b \<noteq> [] \<and> s \<noteq> []"
    by (auto simp: loc_shape_def)
  from True sp ne show ?thesis
    by (simp add: read_coords_def Let_def)
next
  case False
  then have "\<not> (length (split (CHR '','') s) = 2 \<and> split (CHR '','') s ! 0 \<noteq> []
            \<and> split (CHR '','') s ! 1 \<noteq> [])"
    using loc_shape_of_split [of s] by blast
  with False show ?thesis
    by (auto simp: read_coords_def Let_def)
qed

lemma read_coords_shape:
  "loc_shape s a b \<Longrightarrow> read_coords (JStr s) = Inr (JStr a, JStr b)"
proof -
  assume ab: "loc_shape s a b"
  have sp: "split (CHR '','') s = [a, b]"
    by (rule split_of_loc_shape [OF ab])
  from ab have "\<exists>a b. loc_shape s a b" by blast
  with sp show ?thesis
    by (simp add: read_coords_str)
qed

lemma loc_shape_unique:
  assumes "loc_shape s a b" and "loc_shape s a' b'"
  shows "a = a' \<and> b = b'"
proof -
  have "split (CHR '','') s = [a, b]"
    by (rule split_of_loc_shape [OF assms(1)])
  moreover have "split (CHR '','') s = [a', b']"
    by (rule split_of_loc_shape [OF assms(2)])
  ultimately show ?thesis by simp
qed

lemma read_coords_falsy: "\<not> truthy loc \<Longrightarrow> read_coords loc = Inr (JNull, JNull)"
  by (simp add: read_coords_def)

lemma read_coords_result:
  "read_coords loc = Inr (lat, lon) \<Longrightarrow>
     (lat = JNull \<and> lon = JNull) \<or> (\<exists>s a b. loc = JStr s \<and> loc_shape s a b \<and> lat = JStr a \<and> lon = JStr b)"
proof (cases "truthy loc")
  case False
  assume "read_coords loc = Inr (lat, lon)"
  with False show ?thesis by (simp add: read_coords_falsy)
next
  case True
  assume r: "read_coords loc = Inr (lat, lon)"
  show ?thesis
  proof (cases loc)
    case (JStr s)
    show ?thesis
    proof (cases "\<exists>a b. loc_shape s a b")
      case True
      then obtain a b where ab: "loc_shape s a b" by blast
      with r JStr have "lat = JStr a \<and> lon = JStr b"
        by (simp add: read_coords_shape)
      with ab JStr show ?thesis by blast
    next
      case False
      with r JStr show ?thesis by (simp add: read_coords_str)
    qed
  qed (use r True in \<open>auto simp: read_coords_def\<close>)
qed

section \<open>Dicts\<close>

lemma map_of_setitem: "map_of (setitem k v d) = (map_of d)(k \<mapsto> v)"
  by (induction d) (auto simp: fun_eq_iff)

lemma dict_get_setitem:
  "dict_get (setitem k v d) k' = (if k' = k then v else dict_get d k')"
  by (simp add: dict_get_def map_of_setitem)

lemma setitem_same: "map_of d k = Some v \<Longrightarrow> setitem k v d = d"
  by (induction d) (auto split: if_splits)

lemma setitem_twice: "setitem k v (setitem k v d) = setitem k v d"
  by (rule setitem_same) (simp add: map_of_setitem)

section \<open>Coordinates\<close>




lemma loc_shape_needs_comma: "loc_shape s x y \<Longrightarrow> CHR '','' \<in> set s"
  by (simp add: loc_shape_def)

section \<open>Enrichment\<close>

lemma enrich_not_dict:
  "(\<forall>d. raw \<noteq> JObj d) \<Longrightarrow> getDetails_enrich cs raw = (Some AttributeError, raw)"
  by (cases raw) (simp_all add: getDetails_enrich_def)

lemma enrich_country_fails:
  "countries_get cs (dict_get d ''country'') = Inl e \<Longrightarrow>
     getDetails_enrich cs (JObj d) = (Some e, JObj d)"
  by (simp add: getDetails_enrich_def)

lemma enrich_coords_fail:
  "countries_get cs (dict_get d ''country'') = Inr name \<Longrightarrow>
   read_coords (dict_get d ''loc'') = Inl e \<Longrightarrow>
     getDetails_enrich cs (JObj d) = (Some e, JObj (setitem ''country_name'' name d))"
  by (simp add: getDetails_enrich_def dict_get_setitem)

lemma enrich_succeeds:
  "countries_get cs (dict_get d ''country'') = Inr name \<Longrightarrow>
   read_coords (dict_get d ''loc'') = Inr (lat, lon) \<Longrightarrow>
     getDetails_enrich cs (JObj d) =
       (None, JObj (setitem ''longitude'' lon
                     (setitem ''latitude'' lat (setitem ''country_name'' name d))))"
  by (simp add: getDetails_enrich_def dict_get_setitem)

lemma enrich_again:
  "getDetails_enrich cs (snd (getDetails_enrich cs raw)) = getDetails_enrich cs raw"
proof (cases "\<exists>d. raw = JObj d")
  case False
  then show ?thesis by (simp add: enrich_not_dict)
next
  case True
  then obtain d where raw: "raw = JObj d" by blast
  show ?thesis
  proof (cases "countries_get cs (dict_get d ''country'')")
    case (Inl e)
    then show ?thesis by (simp add: raw enrich_country_fails)
  next
    case (Inr name)
    let ?d1 = "setitem ''country_name'' name d"
    have c1: "countries_get cs (dict_get ?d1 ''country'') = Inr name"
      using Inr by (simp add: dict_get_setitem)
    have s1: "setitem ''country_name'' name ?d1 = ?d1"
      by (rule setitem_twice)
    show ?thesis
    proof (cases "read_coords (dict_get d ''loc'')")
      case (Inl e)
      have "read_coords (dict_get ?d1 ''loc'') = Inl e"
        using Inl by (simp add: dict_get_setitem)
      from enrich_coords_fail [OF c1 this] have "getDetails_enrich cs (JObj ?d1) = (Some e, JObj ?d1)"
        by (simp only: s1)
      then show ?thesis
        by (simp add: raw enrich_coords_fail [OF Inr Inl])
    next
      case (Inr p)
      obtain lat lon where p: "p = (lat, lon)" by (cases p)
      let ?d3 = "setitem ''longitude'' lon (setitem ''latitude'' lat ?d1)"
      have rc: "read_coords (dict_get d ''loc'') = Inr (lat, lon)"
        using Inr p by simp
      have c3: "countries_get cs (dict_get ?d3 ''country'') = Inr name"
        using \<open>countries_get cs (dict_get d ''country'') = Inr name\<close>
        by (simp add: dict_get_setitem)
      have r3: "read_coords (dict_get ?d3 ''loc'') = Inr (lat, lon)"
        using rc by (simp add: dict_get_setitem)
      have k1: "setitem ''country_name'' name ?d3 = ?d3"
        by (rule setitem_same) (simp add: map_of_setitem)
      have k2: "setitem ''latitude'' lat ?d3 = ?d3"
        by (rule setitem_same) (simp add: map_of_setitem)
      have k3: "setitem ''longitude'' lon ?d3 = ?d3"
        by (rule setitem_same) (simp add: map_of_setitem)
      from enrich_succeeds [OF c3 r3] have "getDetails_enrich cs (JObj ?d3) = (None, JObj ?d3)"
        by (simp only: k1 k2 k3)
      then show ?thesis
        by (simp add: raw enrich_succeeds [OF \<open>countries_get cs (dict_get d ''country'') = Inr name\<close> rc])
    qed
  qed
qed

text \<open>
  Claim C8. Enriching what an enrichment has left, with the same country table, changes
  nothing: where the first enrichment raised, the second raises the same exception on
  the same object, and where it produced a record, enriching that record yields it
  again, field by field.
\<close>

theorem getDetails_enrich_idempotent:
  "getDetails_enrich cs (snd (getDetails_enrich cs raw)) = getDetails_enrich cs raw
   \<and> (\<forall>v. getDetails_enrich cs raw = (None, v) \<longrightarrow> getDetails_enrich cs v = (None, v))"
proof
  show "getDetails_enrich cs (snd (getDetails_enrich cs raw)) = getDetails_enrich cs raw"
    by (rule enrich_again)
next
  show "\<forall>v. getDetails_enrich cs raw = (None, v) \<longrightarrow> getDetails_enrich cs v = (None, v)"
  proof (intro allI impI)
    fix v
    assume once: "getDetails_enrich cs raw = (None, v)"
    have "getDetails_enrich cs (snd (getDetails_enrich cs raw)) = getDetails_enrich cs raw"
      by (rule enrich_again)
    with once show "getDetails_enrich cs v = (None, v)"
      by simp
  qed
qed

lemma stub_enrich:
  "getDetails_enrich (countries stub_handler) stub_raw =
     (None, JObj [(''ip'', JStr ''8.8.8.8''), (''country'', JStr ''US''),
                  (''loc'', JStr ''37.751,-97.822''),
                  (''country_name'', JStr ''United States''),
                  (''latitude'', JStr ''37.751''), (''longitude'', JStr ''-97.822'')])"
proof -
  have "loc_shape ''37.751,-97.822'' ''37.751'' ''-97.822''"
    by (simp add: loc_shape_def)
  then have r: "read_coords (dict_get [(''ip'', JStr ''8.8.8.8''), (''country'', JStr ''US''),
                  (''loc'', JStr ''37.751,-97.822'')] ''loc'') = Inr (JStr ''37.751'', JStr ''-97.822'')"
    by (simp add: dict_get_def read_coords_shape)
  have c: "countries_get (countries stub_handler) (dict_get [(''ip'', JStr ''8.8.8.8''), (''country'', JStr ''US''),
                  (''loc'', JStr ''37.751,-97.822'')] ''country'') = Inr (JStr ''United States'')"
    by (simp add: dict_get_def countries_get_def stub_handler_def)
  show ?thesis
    unfolding stub_raw_def by (simp add: enrich_succeeds [OF c r])
qed

theorem getDetails_enrich_idempotent_witness:
  "getDetails_enrich (countries stub_handler) stub_raw =
     (None, JObj [(''ip'', JStr ''8.8.8.8''), (''country'', JStr ''US''),
                  (''loc'', JStr ''37.751,-97.822''),
                  (''country_name'', JStr ''United States''),
                  (''latitude'', JStr ''37.751''), (''longitude'', JStr ''-97.822'')])
   \<and> getDetails_enrich (countries stub_handler)
        (JObj [(''ip'', JStr ''8.8.8.8''), (''country'', JStr ''US''),
               (''loc'', JStr ''37.751,-97.822''),
               (''country_name'', JStr ''United States''),
               (''latitude'', JStr ''37.751''), (''longitude'', JStr ''-97.822'')]) =
     (None, JObj [(''ip'', JStr ''8.8.8.8''), (''country'', JStr ''US''),
                  (''loc'', JStr ''37.751,-97.822''),
                  (''country_name'', JStr ''United States''),
                  (''latitude'', JStr ''37.751''), (''longitude'', JStr ''-97.822'')])"
  using getDetails_enrich_idempotent [of "countries stub_handler" stub_raw] stub_enrich
  by blast

lemma enrich_None:
  assumes "getDetails_enrich cs raw = (None, v)"
  shows "\<exists>d name lat lon. raw = JObj d
           \<and> countries_get cs (dict_get d ''country'') = Inr name
           \<and> read_coords (dict_get d ''loc'') = Inr (lat, lon)
           \<and> v = JObj (setitem ''longitude'' lon
                        (setitem ''latitude'' lat (setitem ''country_name'' name d)))"
proof (cases "\<exists>d. raw = JObj d")
  case False
  with assms show ?thesis by (simp add: enrich_not_dict)
next
  case True
  then obtain d where raw: "raw = JObj d" by blast
  show ?thesis
  proof (cases "countries_get cs (dict_get d ''country'')")
    case (Inl e)
    with assms raw show ?thesis by (simp add: enrich_country_fails)
  next
    case name: (Inr name)
    show ?thesis
    proof (cases "read_coords (dict_get d ''loc'')")
      case (Inl e)
      with assms raw name show ?thesis by (simp add: enrich_coords_fail)
    next
      case (Inr p)
      obtain lat lon where "p = (lat, lon)" by (cases p)
      with Inr have rc: "read_coords (dict_get d ''loc'') = Inr (lat, lon)" by simp
      from assms raw show ?thesis
        using name rc by (simp add: enrich_succeeds [OF name rc])
    qed
  qed
qed

lemma countries_get_unknown:
  "countries_get cs v = Inr name \<Longrightarrow> \<not> country_known cs v \<Longrightarrow> name = JNull"
  by (auto simp: countries_get_def country_known_def dict_get_def
           split: json.splits option.splits)

lemma countries_get_hashable:
  "hashable v \<Longrightarrow> \<exists>name. countries_get (JObj c) v = Inr name"
  by (cases v) (simp_all add: countries_get_def hashable_def)

lemma read_coords_str_or_falsy:
  "str_or_falsy v \<Longrightarrow> \<exists>lat lon. read_coords v = Inr (lat, lon)"
  by (cases v) (auto simp: str_or_falsy_def read_coords_falsy read_coords_str)

lemma read_coords_malformed:
  assumes "read_coords v = Inr (lat, lon)"
    and "\<forall>s x y. v = JStr s \<longrightarrow> \<not> loc_shape s x y"
  shows "lat = JNull \<and> lon = JNull"
  using read_coords_result [OF assms(1)] assms(2) by blast

text \<open>
  Claim C4, as amended. For a country table that is a dict and a raw dict whose
  \<open>country\<close> is absent or hashable (a string, a number, a boolean, \<open>None\<close>) and whose
  \<open>loc\<close> is absent, a string or any falsy value, the enrichment raises nothing and
  writes the three derived fields into the dict; a \<open>loc\<close> that is not two non-empty
  parts around one comma gives \<open>None\<close> for both coordinates, and a \<open>country\<close> that is no
  key of the table gives \<open>None\<close> for the name.
\<close>

theorem enrich_total_on_expected_types:
  assumes "hashable (dict_get d ''country'')"
    and "str_or_falsy (dict_get d ''loc'')"
  shows "\<exists>name lat lon.
           getDetails_enrich (JObj c) (JObj d) =
             (None, JObj (setitem ''longitude'' lon
                           (setitem ''latitude'' lat (setitem ''country_name'' name d))))
           \<and> ((\<forall>s x y. dict_get d ''loc'' = JStr s \<longrightarrow> \<not> loc_shape s x y)
                \<longrightarrow> lat = JNull \<and> lon = JNull)
           \<and> (\<not> country_known (JObj c) (dict_get d ''country'') \<longrightarrow> name = JNull)"
proof -
  from countries_get_hashable [OF assms(1)]
  obtain name where n: "countries_get (JObj c) (dict_get d ''country'') = Inr name"
    by blast
  from read_coords_str_or_falsy [OF assms(2)]
  obtain lat lon where r: "read_coords (dict_get d ''loc'') = Inr (lat, lon)"
    by blast
  have "(\<forall>s x y. dict_get d ''loc'' = JStr s \<longrightarrow> \<not> loc_shape s x y)
          \<longrightarrow> lat = JNull \<and> lon = JNull"
    using read_coords_malformed [OF r] by blast
  moreover have "\<not> country_known (JObj c) (dict_get d ''country'') \<longrightarrow> name = JNull"
    using countries_get_unknown [OF n] by blast
  ultimately show ?thesis
    using enrich_succeeds [OF n r] by blast
qed

theorem enrich_total_on_expected_types_witness:
  "hashable (dict_get [(''ip'', JStr ''8.8.8.8''), (''loc'', JStr ''1.23'')] ''country'')
   \<and> str_or_falsy (dict_get [(''ip'', JStr ''8.8.8.8''), (''loc'', JStr ''1.23'')] ''loc'')
   \<and> getDetails_enrich (JObj [(''US'', JStr ''United States'')])
        (JObj [(''ip'', JStr ''8.8.8.8''), (''loc'', JStr ''1.23'')]) =
       (None, JObj [(''ip'', JStr ''8.8.8.8''), (''loc'', JStr ''1.23''),
                    (''country_name'', JNull), (''latitude'', JNull), (''longitude'', JNull)])"
proof -
  let ?d = "[(''ip'', JStr ''8.8.8.8''), (''loc'', JStr ''1.23'')]"
  have h1: "hashable (dict_get ?d ''country'')"
    by (simp add: hashable_def dict_get_def)
  have h2: "str_or_falsy (dict_get ?d ''loc'')"
    by (simp add: str_or_falsy_def dict_get_def)
  have malformed: "\<forall>s x y. dict_get ?d ''loc'' = JStr s \<longrightarrow> \<not> loc_shape s x y"
    using loc_shape_needs_comma [of "''1.23''"] by (auto simp: dict_get_def)
  have unknown: "\<not> country_known (JObj [(''US'', JStr ''United States'')]) (dict_get ?d ''country'')"
    by (simp add: country_known_def dict_get_def)
  from enrich_total_on_expected_types [OF h1 h2, of "[(''US'', JStr ''United States'')]"]
    malformed unknown
  have "getDetails_enrich (JObj [(''US'', JStr ''United States'')]) (JObj ?d) =
          (None, JObj (setitem ''longitude'' JNull
                        (setitem ''latitude'' JNull (setitem ''country_name'' JNull ?d))))"
    by blast
  with h1 h2 show ?thesis by simp
qed

text \<open>
  Claim C4 as stated fails: a number as \<open>loc\<close> has no \<open>split\<close>, and a list as
  \<open>country\<close> cannot be hashed.
\<close>

theorem enrich_raises_counterexample:
  "fst (getDetails_enrich (JObj [(''US'', JStr ''United States'')])
          (JObj [(''ip'', JStr ''8.8.8.8''), (''loc'', JInt 5)])) = Some AttributeError
   \<and> fst (getDetails_enrich (JObj [(''US'', JStr ''United States'')])
          (JObj [(''ip'', JStr ''8.8.8.8''), (''country'', JArr [JStr ''US''])])) = Some TypeError"
  by (simp add: getDetails_enrich_def countries_get_def read_coords_def dict_get_def)

section \<open>The cache and the orchestrator\<close>

lemma map_of_filter_fst:
  "map_of (filter (\<lambda>e. fst e \<noteq> k) es) k' = (if k' = k then None else map_of es k')"
  by (induction es) auto

lemma map_of_move_front:
  "map_of es k = Some v \<Longrightarrow> (map_of (filter (\<lambda>e. fst e \<noteq> k) es))(k \<mapsto> v) = map_of es"
  by (auto simp: fun_eq_iff map_of_filter_fst)

lemma cache_lookup_cong:
  "map_of (entries c') = map_of (entries c) \<Longrightarrow> cache_lookup c' now k = cache_lookup c now k"
  by (simp add: cache_lookup_def)

lemma cache_getitem_miss:
  "cache_lookup c now k = None \<Longrightarrow> cache_getitem c now k = (Inl KeyError, c)"
  by (auto simp: cache_lookup_def cache_getitem_def split: option.splits if_splits)

lemma cache_getitem_hit:
  "cache_lookup c now k = Some a \<Longrightarrow>
     \<exists>c'. cache_getitem c now k = (Inr a, c') \<and> map_of (entries c') = map_of (entries c)
          \<and> ttl c' = ttl c \<and> maxsize c' = maxsize c"
  by (auto simp: cache_lookup_def cache_getitem_def map_of_move_front
           split: option.splits if_splits)

lemma cache_lookup_setitem:
  "cache_lookup (cache_setitem c now k a) now' k =
     (if 0 < maxsize c \<and> now' < now + ttl c then Some a else None)"
  by (cases "maxsize c") (auto simp: cache_lookup_def cache_setitem_def)

lemma cache_setitem_params:
  "ttl (cache_setitem c now k a) = ttl c \<and> maxsize (cache_setitem c now k a) = maxsize c"
  by (simp add: cache_setitem_def)


lemma cache_read_miss:
  "cache_lookup (cache w) now k = None \<Longrightarrow> cache_read now k w = (Inl KeyError, w)"
  by (simp add: cache_read_def cache_getitem_miss)

lemma cache_read_hit:
  assumes "cache_lookup (cache w) now k = Some a"
  shows "\<exists>c'. cache_read now k w = (Inr a, w\<lparr>cache := c'\<rparr>)
            \<and> map_of (entries c') = map_of (entries (cache w))
            \<and> ttl c' = ttl (cache w) \<and> maxsize c' = maxsize (cache w)"
  using cache_getitem_hit [OF assms] by (auto simp: cache_read_def)

lemma requestDetails_hit:
  "cache_contains (cache w) now k \<Longrightarrow> requestDetails h now reply k w = cache_read now k w"
  by (simp add: requestDetails_def)


lemma requestDetails_collision:
  "\<not> cache_contains (cache w) now k \<Longrightarrow> ''headers'' \<in> fst ` set (request_options h) \<Longrightarrow>
     requestDetails h now reply k w = (Inl TypeError, w)"
  by (simp add: requestDetails_def)

lemma requestDetails_transport:
  "\<not> cache_contains (cache w) now k \<Longrightarrow> ''headers'' \<notin> fst ` set (request_options h) \<Longrightarrow>
     requestDetails h now (Inl e) k w =
       (Inl e, w\<lparr>sent := sent w @
            [\<lparr>url = request_url k, headers = get_headers h, options = request_options h\<rparr>]\<rparr>)"
  by (simp add: requestDetails_def)

lemma requestDetails_429:
  "\<not> cache_contains (cache w) now k \<Longrightarrow> ''headers'' \<notin> fst ` set (request_options h) \<Longrightarrow>
   status_code r = 429 \<Longrightarrow>
     requestDetails h now (Inr r) k w =
       (Inl RequestQuotaExceededError, w\<lparr>sent := sent w @
            [\<lparr>url = request_url k, headers = get_headers h, options = request_options h\<rparr>]\<rparr>)"
  by (simp add: requestDetails_def)

lemma requestDetails_error_status:
  "\<not> cache_contains (cache w) now k \<Longrightarrow> ''headers'' \<notin> fst ` set (request_options h) \<Longrightarrow>
   status_code r \<noteq> 429 \<Longrightarrow> 400 \<le> status_code r \<Longrightarrow> status_code r < 600 \<Longrightarrow>
     requestDetails h now (Inr r) k w =
       (Inl (HTTPError (status_code r) (text_body r)), w\<lparr>sent := sent w @
            [\<lparr>url = request_url k, headers = get_headers h, options = request_options h\<rparr>]\<rparr>)"
  by (simp add: requestDetails_def)

lemma requestDetails_no_json:
  "\<not> cache_contains (cache w) now k \<Longrightarrow> ''headers'' \<notin> fst ` set (request_options h) \<Longrightarrow>
   status_code r \<noteq> 429 \<Longrightarrow> \<not> (400 \<le> status_code r \<and> status_code r < 600) \<Longrightarrow>
   body_json r = None \<Longrightarrow>
     requestDetails h now (Inr r) k w =
       (Inl JSONDecodeError, w\<lparr>sent := sent w @
            [\<lparr>url = request_url k, headers = get_headers h, options = request_options h\<rparr>]\<rparr>)"
  by (auto simp: requestDetails_def Let_def)

lemma requestDetails_store:
  "\<not> cache_contains (cache w) now k \<Longrightarrow> ''headers'' \<notin> fst ` set (request_options h) \<Longrightarrow>
   status_code r \<noteq> 429 \<Longrightarrow> \<not> (400 \<le> status_code r \<and> status_code r < 600) \<Longrightarrow>
   body_json r = Some v \<Longrightarrow>
     requestDetails h now (Inr r) k w =
       cache_read now k
         (w\<lparr>sent := sent w @
               [\<lparr>url = request_url k, headers = get_headers h, options = request_options h\<rparr>],
            heap := (heap w)(next_addr w := v),
            next_addr := Suc (next_addr w),
            cache := cache_setitem (cache w) now k (next_addr w)\<rparr>)"
  by (auto simp: requestDetails_def Let_def)


lemma getDetails_fail:
  "requestDetails h now reply k w = (Inl e, w1) \<Longrightarrow> getDetails h now reply k w = (Inl e, w1)"
  by (simp add: getDetails_def)

lemma getDetails_enriches:
  "requestDetails h now reply k w = (Inr a, w1) \<Longrightarrow>
   getDetails_enrich (countries h) (heap w1 a) = (err, v) \<Longrightarrow>
     getDetails h now reply k w =
       ((case err of Some e \<Rightarrow> Inl e | None \<Rightarrow> Inr (Details a)),
        w1\<lparr>heap := (heap w1)(a := v)\<rparr>)"
  by (simp add: getDetails_def Let_def split: option.splits)

lemma getDetails_frame:
  "sent (snd (getDetails h now reply k w)) = sent (snd (requestDetails h now reply k w))
   \<and> cache (snd (getDetails h now reply k w)) = cache (snd (requestDetails h now reply k w))
   \<and> next_addr (snd (getDetails h now reply k w)) = next_addr (snd (requestDetails h now reply k w))"
proof (cases "requestDetails h now reply k w")
  case (Pair r w1)
  show ?thesis
  proof (cases r)
    case (Inl e)
    with Pair show ?thesis by (simp add: getDetails_fail)
  next
    case (Inr a)
    obtain err v where "getDetails_enrich (countries h) (heap w1 a) = (err, v)"
      by (cases "getDetails_enrich (countries h) (heap w1 a)")
    with Pair Inr show ?thesis by (simp add: getDetails_enriches)
  qed
qed


lemma getDetails_hit:
  assumes look: "cache_lookup (cache w) now k = Some a"
    and enr: "getDetails_enrich (countries h) (heap w a) = (err, v)"
  shows "fst (getDetails h now reply k w) = (case err of Some e \<Rightarrow> Inl e | None \<Rightarrow> Inr (Details a))"
    and "heap (snd (getDetails h now reply k w)) = (heap w)(a := v)"
    and "sent (snd (getDetails h now reply k w)) = sent w"
    and "next_addr (snd (getDetails h now reply k w)) = next_addr w"
    and "map_of (entries (cache (snd (getDetails h now reply k w)))) = map_of (entries (cache w))"
    and "ttl (cache (snd (getDetails h now reply k w))) = ttl (cache w)"
    and "maxsize (cache (snd (getDetails h now reply k w))) = maxsize (cache w)"
proof -
  from look have "cache_contains (cache w) now k"
    by (simp add: cache_contains_def)
  then have rd: "requestDetails h now reply k w = cache_read now k w"
    by (rule requestDetails_hit)
  from cache_read_hit [OF look] obtain c' where
    cr: "cache_read now k w = (Inr a, w\<lparr>cache := c'\<rparr>)"
    and c': "map_of (entries c') = map_of (entries (cache w))"
      "ttl c' = ttl (cache w)" "maxsize c' = maxsize (cache w)"
    by blast
  have "requestDetails h now reply k w = (Inr a, w\<lparr>cache := c'\<rparr>)"
    using rd cr by simp
  moreover have "getDetails_enrich (countries h) (heap (w\<lparr>cache := c'\<rparr>) a) = (err, v)"
    using enr by simp
  ultimately have g: "getDetails h now reply k w =
      ((case err of Some e \<Rightarrow> Inl e | None \<Rightarrow> Inr (Details a)),
       w\<lparr>cache := c'\<rparr>\<lparr>heap := (heap (w\<lparr>cache := c'\<rparr>))(a := v)\<rparr>)"
    by (rule getDetails_enriches)
  show "fst (getDetails h now reply k w) = (case err of Some e \<Rightarrow> Inl e | None \<Rightarrow> Inr (Details a))"
    by (simp add: g)
  show "heap (snd (getDetails h now reply k w)) = (heap w)(a := v)"
    by (simp add: g)
  show "sent (snd (getDetails h now reply k w)) = sent w"
    by (simp add: g)
  show "next_addr (snd (getDetails h now reply k w)) = next_addr w"
    by (simp add: g)
  show "map_of (entries (cache (snd (getDetails h now reply k w)))) = map_of (entries (cache w))"
    by (simp add: g c')
  show "ttl (cache (snd (getDetails h now reply k w))) = ttl (cache w)"
    by (simp add: g c')
  show "maxsize (cache (snd (getDetails h now reply k w))) = maxsize (cache w)"
    by (simp add: g c')
qed

lemma getDetails_store:
  assumes miss: "\<not> cache_contains (cache w) now k"
    and opts: "''headers'' \<notin> fst ` set (request_options h)"
    and st: "status_code r \<noteq> 429" "\<not> (400 \<le> status_code r \<and> status_code r < 600)"
    and body: "body_json r = Some raw"
    and room: "0 < maxsize (cache w)" "0 < ttl (cache w)"
    and enr: "getDetails_enrich (countries h) raw = (err, v)"
  shows "fst (getDetails h now (Inr r) k w) =
           (case err of Some e \<Rightarrow> Inl e | None \<Rightarrow> Inr (Details (next_addr w)))"
    and "heap (snd (getDetails h now (Inr r) k w)) = (heap w)(next_addr w := v)"
    and "sent (snd (getDetails h now (Inr r) k w)) =
           sent w @ [\<lparr>url = request_url k, headers = get_headers h, options = request_options h\<rparr>]"
    and "next_addr (snd (getDetails h now (Inr r) k w)) = Suc (next_addr w)"
    and "cache_lookup (cache (snd (getDetails h now (Inr r) k w))) t k =
           (if t < now + ttl (cache w) then Some (next_addr w) else None)"
    and "ttl (cache (snd (getDetails h now (Inr r) k w))) = ttl (cache w)"
    and "maxsize (cache (snd (getDetails h now (Inr r) k w))) = maxsize (cache w)"
proof -
  let ?a = "next_addr w"
  let ?w1 = "w\<lparr>sent := sent w @
               [\<lparr>url = request_url k, headers = get_headers h, options = request_options h\<rparr>],
            heap := (heap w)(?a := raw),
            next_addr := Suc ?a,
            cache := cache_setitem (cache w) now k ?a\<rparr>"
  have rd: "requestDetails h now (Inr r) k w = cache_read now k ?w1"
    by (rule requestDetails_store [OF miss opts st body])
  have look: "cache_lookup (cache ?w1) now k = Some ?a"
    using room by (simp add: cache_lookup_setitem)
  from cache_read_hit [OF look] obtain c' where
    cr: "cache_read now k ?w1 = (Inr ?a, ?w1\<lparr>cache := c'\<rparr>)"
    and c': "map_of (entries c') = map_of (entries (cache ?w1))"
      "ttl c' = ttl (cache ?w1)" "maxsize c' = maxsize (cache ?w1)"
    by blast
  have "requestDetails h now (Inr r) k w = (Inr ?a, ?w1\<lparr>cache := c'\<rparr>)"
    using rd cr by simp
  moreover have "getDetails_enrich (countries h) (heap (?w1\<lparr>cache := c'\<rparr>) ?a) = (err, v)"
    using enr by simp
  ultimately have g: "getDetails h now (Inr r) k w =
      ((case err of Some e \<Rightarrow> Inl e | None \<Rightarrow> Inr (Details ?a)),
       ?w1\<lparr>cache := c'\<rparr>\<lparr>heap := (heap (?w1\<lparr>cache := c'\<rparr>))(?a := v)\<rparr>)"
    by (rule getDetails_enriches)
  have m: "map_of (entries c') = map_of (entries (cache_setitem (cache w) now k ?a))"
    using c'(1) by simp
  have "cache_lookup c' t k = cache_lookup (cache_setitem (cache w) now k ?a) t k"
    by (rule cache_lookup_cong [OF m])
  then have l: "cache_lookup c' t k = (if t < now + ttl (cache w) then Some ?a else None)"
    using room by (simp add: cache_lookup_setitem)
  have p: "ttl c' = ttl (cache w)" "maxsize c' = maxsize (cache w)"
    using c'(2,3) by (simp_all add: cache_setitem_params)
  show "fst (getDetails h now (Inr r) k w) =
           (case err of Some e \<Rightarrow> Inl e | None \<Rightarrow> Inr (Details (next_addr w)))"
    by (simp add: g)
  show "heap (snd (getDetails h now (Inr r) k w)) = (heap w)(next_addr w := v)"
    by (simp add: g)
  show "sent (snd (getDetails h now (Inr r) k w)) =
           sent w @ [\<lparr>url = request_url k, headers = get_headers h, options = request_options h\<rparr>]"
    by (simp add: g)
  show "next_addr (snd (getDetails h now (Inr r) k w)) = Suc (next_addr w)"
    by (simp add: g)
  show "cache_lookup (cache (snd (getDetails h now (Inr r) k w))) t k =
           (if t < now + ttl (cache w) then Some (next_addr w) else None)"
    using l by (simp add: g)
  show "ttl (cache (snd (getDetails h now (Inr r) k w))) = ttl (cache w)"
    by (simp add: g p)
  show "maxsize (cache (snd (getDetails h now (Inr r) k w))) = maxsize (cache w)"
    by (simp add: g p)
qed


lemma cache_read_frame:
  "sent (snd (cache_read now k w)) = sent w
   \<and> heap (snd (cache_read now k w)) = heap w
   \<and> next_addr (snd (cache_read now k w)) = next_addr w"
  by (simp add: cache_read_def split: prod.splits)

lemma requestDetails_hit_sent:
  "cache_contains (cache w) now k \<Longrightarrow> sent (snd (requestDetails h now reply k w)) = sent w"
  by (simp add: requestDetails_hit cache_read_frame)

lemma requestDetails_sent:
  "sent (snd (requestDetails h now reply k w)) = sent w
   \<or> sent (snd (requestDetails h now reply k w)) =
       sent w @ [\<lparr>url = request_url k, headers = get_headers h, options = request_options h\<rparr>]"
proof (cases "cache_contains (cache w) now k")
  case True
  then show ?thesis by (simp add: requestDetails_hit_sent)
next
  case miss: False
  show ?thesis
  proof (cases "''headers'' \<in> fst ` set (request_options h)")
    case True
    with miss show ?thesis by (simp add: requestDetails_collision)
  next
    case opts: False
    show ?thesis
    proof (cases reply)
      case (Inl e)
      with miss opts show ?thesis by (simp add: requestDetails_transport)
    next
      case (Inr r)
      show ?thesis
      proof (cases "status_code r = 429")
        case True
        with miss opts Inr show ?thesis by (simp add: requestDetails_429)
      next
        case n429: False
        show ?thesis
        proof (cases "400 \<le> status_code r \<and> status_code r < 600")
          case True
          with miss opts Inr n429 show ?thesis by (simp add: requestDetails_error_status)
        next
          case ok: False
          show ?thesis
          proof (cases "body_json r")
            case None
            with miss opts Inr n429 ok show ?thesis
              by (simp only: requestDetails_no_json [OF miss opts n429 ok None]) simp
          next
            case (Some raw)
            show ?thesis
              by (simp add: Inr requestDetails_store [OF miss opts n429 ok Some] cache_read_frame)
          qed
        qed
      qed
    qed
  qed
qed

lemma getDetails_sent:
  "sent (snd (getDetails h now reply k w)) = sent w
   \<or> sent (snd (getDetails h now reply k w)) =
       sent w @ [\<lparr>url = request_url k, headers = get_headers h, options = request_options h\<rparr>]"
  using requestDetails_sent [of h now reply k w] getDetails_frame [of h now reply k w] by simp

lemma getDetails_hit_sent:
  "cache_contains (cache w) now k \<Longrightarrow> sent (snd (getDetails h now reply k w)) = sent w"
  using requestDetails_hit_sent [of w now k h reply] getDetails_frame [of h now reply k w] by simp

lemma getDetails_sent_le:
  "length (sent (snd (getDetails h now reply k w))) \<le> Suc (length (sent w))"
  using getDetails_sent [of h now reply k w] by auto


lemma requestDetails_no_room:
  assumes miss: "\<not> cache_contains (cache w) now k"
    and opts: "''headers'' \<notin> fst ` set (request_options h)"
    and st: "status_code r \<noteq> 429" "\<not> (400 \<le> status_code r \<and> status_code r < 600)"
    and body: "body_json r = Some raw"
    and full: "\<not> (0 < maxsize (cache w) \<and> 0 < ttl (cache w))"
  shows "fst (requestDetails h now (Inr r) k w) = Inl KeyError"
proof -
  let ?w1 = "w\<lparr>sent := sent w @
               [\<lparr>url = request_url k, headers = get_headers h, options = request_options h\<rparr>],
            heap := (heap w)(next_addr w := raw),
            next_addr := Suc (next_addr w),
            cache := cache_setitem (cache w) now k (next_addr w)\<rparr>"
  have "cache_lookup (cache ?w1) now k = None"
    using full by (auto simp: cache_lookup_setitem)
  then have "cache_read now k ?w1 = (Inl KeyError, ?w1)"
    by (rule cache_read_miss)
  then show ?thesis
    by (simp add: requestDetails_store [OF miss opts st body])
qed

lemma requestDetails_miss_Inr:
  assumes miss: "\<not> cache_contains (cache w) now k"
    and ok: "fst (requestDetails h now reply k w) = Inr a"
  shows "\<exists>r raw. reply = Inr r \<and> status_code r \<noteq> 429
           \<and> \<not> (400 \<le> status_code r \<and> status_code r < 600)
           \<and> body_json r = Some raw
           \<and> ''headers'' \<notin> fst ` set (request_options h)
           \<and> 0 < maxsize (cache w) \<and> 0 < ttl (cache w)"
proof (cases "''headers'' \<in> fst ` set (request_options h)")
  case True
  with miss ok show ?thesis by (simp add: requestDetails_collision)
next
  case opts: False
  show ?thesis
  proof (cases reply)
    case (Inl e)
    with miss opts ok show ?thesis by (simp add: requestDetails_transport)
  next
    case (Inr r)
    show ?thesis
    proof (cases "status_code r = 429")
      case True
      with miss opts Inr ok show ?thesis by (simp add: requestDetails_429)
    next
      case n429: False
      show ?thesis
      proof (cases "400 \<le> status_code r \<and> status_code r < 600")
        case True
        with miss opts Inr n429 ok show ?thesis by (simp add: requestDetails_error_status)
      next
        case fine: False
        show ?thesis
        proof (cases "body_json r")
          case None
          from ok show ?thesis
            by (simp add: Inr requestDetails_no_json [OF miss opts n429 fine None])
        next
          case (Some raw)
          show ?thesis
          proof (cases "0 < maxsize (cache w) \<and> 0 < ttl (cache w)")
            case True
            with Inr n429 fine Some opts show ?thesis by blast
          next
            case False
            from ok show ?thesis
              by (simp add: Inr requestDetails_no_room [OF miss opts n429 fine Some False])
          qed
        qed
      qed
    qed
  qed
qed

lemma getDetails_Inr_request:
  assumes "fst (getDetails h now reply k w) = Inr d"
  shows "\<exists>a. fst (requestDetails h now reply k w) = Inr a"
proof (cases "requestDetails h now reply k w")
  case (Pair r w1)
  show ?thesis
  proof (cases r)
    case (Inl e)
    with Pair assms show ?thesis by (simp add: getDetails_fail)
  next
    case (Inr a)
    with Pair show ?thesis by simp
  qed
qed

lemma getDetails_success:
  assumes ok: "fst (getDetails h now reply k w) = Inr d"
  shows "\<exists>a raw v. d = Details a
           \<and> getDetails_enrich (countries h) raw = (None, v)
           \<and> heap (snd (getDetails h now reply k w)) a = v
           \<and> (\<forall>t. (cache_contains (cache w) now k \<longrightarrow>
                     cache_lookup (cache (snd (getDetails h now reply k w))) t k
                       = cache_lookup (cache w) t k)
                  \<and> (\<not> cache_contains (cache w) now k \<longrightarrow>
                     cache_lookup (cache (snd (getDetails h now reply k w))) t k
                       = (if t < now + ttl (cache w) then Some a else None)))
           \<and> cache_lookup (cache (snd (getDetails h now reply k w))) now k = Some a
           \<and> ttl (cache (snd (getDetails h now reply k w))) = ttl (cache w)
           \<and> (if cache_contains (cache w) now k then raw = heap w a
               else a = next_addr w \<and> (\<exists>r. reply = Inr r \<and> body_json r = Some raw))"
proof (cases "cache_contains (cache w) now k")
  case True
  then obtain a where look: "cache_lookup (cache w) now k = Some a"
    by (auto simp: cache_contains_def)
  obtain err v where enr: "getDetails_enrich (countries h) (heap w a) = (err, v)"
    by (cases "getDetails_enrich (countries h) (heap w a)")
  note hit = getDetails_hit [OF look enr]
  from ok hit(1) have e: "err = None" and d: "d = Details a"
    by (auto split: option.splits)
  have same: "\<And>t. cache_lookup (cache (snd (getDetails h now reply k w))) t k
                 = cache_lookup (cache w) t k"
    by (rule cache_lookup_cong [OF hit(5)])
  have "heap (snd (getDetails h now reply k w)) a = v"
    by (simp add: hit(2))
  with True d e enr same look hit(6) show ?thesis by auto
next
  case miss: False
  from getDetails_Inr_request [OF ok] obtain a where
    rd: "fst (requestDetails h now reply k w) = Inr a" by blast
  from requestDetails_miss_Inr [OF miss rd] obtain r raw where
    c: "reply = Inr r" "status_code r \<noteq> 429"
       "\<not> (400 \<le> status_code r \<and> status_code r < 600)"
       "body_json r = Some raw" "''headers'' \<notin> fst ` set (request_options h)"
       "0 < maxsize (cache w)" "0 < ttl (cache w)"
    by blast
  obtain err v where enr: "getDetails_enrich (countries h) raw = (err, v)"
    by (cases "getDetails_enrich (countries h) raw")
  note st = getDetails_store [OF miss c(5) c(2) c(3) c(4) c(6) c(7) enr]
  from ok st(1) c(1) have e: "err = None" and d: "d = Details (next_addr w)"
    by (auto split: option.splits)
  have h: "heap (snd (getDetails h now reply k w)) (next_addr w) = v"
    using st(2) c(1) by simp
  have l: "\<And>t. cache_lookup (cache (snd (getDetails h now reply k w))) t k
             = (if t < now + ttl (cache w) then Some (next_addr w) else None)"
    using st(5) c(1) by simp
  have l0: "cache_lookup (cache (snd (getDetails h now reply k w))) now k = Some (next_addr w)"
    using l [of now] c(7) by simp
  have t: "ttl (cache (snd (getDetails h now reply k w))) = ttl (cache w)"
    using st(6) c(1) by simp
  from miss d e enr h l l0 t c(1) c(4) show ?thesis by auto
qed

section \<open>The scenario, step by step\<close>

lemma stub_miss: "\<not> cache_contains (cache fresh_world) now k"
  by (simp add: cache_contains_def cache_lookup_def fresh_world_def DefaultCache_def)

lemma stub_options: "''headers'' \<notin> fst ` set (request_options stub_handler)"
  by (simp add: stub_handler_def)

lemma stub_room: "0 < maxsize (cache fresh_world)" "0 < ttl (cache fresh_world)"
  by (simp_all add: fresh_world_def DefaultCache_def CACHE_MAXSIZE_def CACHE_TTL_def)

text \<open>
  Claim C5. When the key is not in the cache and the transport answers 429, the call
  raises \<open>RequestQuotaExceededError\<close>, the cache is left as it was, so the key stays
  absent, no object is created, and the one request sent is the only one: nothing is
  retried.
\<close>

theorem quota_exceeded_leaves_cache:
  assumes "\<not> cache_contains (cache w) now k"
    and "''headers'' \<notin> fst ` set (request_options h)"
    and "status_code r = 429"
  shows "getDetails h now (Inr r) k w =
           (Inl RequestQuotaExceededError,
            w\<lparr>sent := sent w @
                 [\<lparr>url = request_url k, headers = get_headers h, options = request_options h\<rparr>]\<rparr>)
         \<and> cache (snd (getDetails h now (Inr r) k w)) = cache w
         \<and> \<not> cache_contains (cache (snd (getDetails h now (Inr r) k w))) now k"
proof -
  have "getDetails h now (Inr r) k w =
           (Inl RequestQuotaExceededError,
            w\<lparr>sent := sent w @
                 [\<lparr>url = request_url k, headers = get_headers h, options = request_options h\<rparr>]\<rparr>)"
    by (rule getDetails_fail [OF requestDetails_429 [OF assms]])
  with assms(1) show ?thesis by simp
qed

theorem quota_exceeded_leaves_cache_witness:
  "\<not> cache_contains (cache fresh_world) 0 (Some ''8.8.8.8'')
   \<and> ''headers'' \<notin> fst ` set (request_options stub_handler)
   \<and> status_code (stub_response 429) = 429
   \<and> fst (getDetails stub_handler 0 (Inr (stub_response 429)) (Some ''8.8.8.8'') fresh_world)
       = Inl RequestQuotaExceededError
   \<and> \<not> cache_contains
         (cache (snd (getDetails stub_handler 0 (Inr (stub_response 429)) (Some ''8.8.8.8'')
                        fresh_world))) 0 (Some ''8.8.8.8'')"
proof -
  have s: "status_code (stub_response 429) = 429"
    by (simp add: stub_response_def)
  from quota_exceeded_leaves_cache [OF stub_miss stub_options s, of 0 "Some ''8.8.8.8''"]
  show ?thesis
    using stub_miss [of 0 "Some ''8.8.8.8''"] stub_options s by simp
qed

text \<open>
  Claim C6, as amended. When the key is not in the cache and the transport answers
  with a status from 400 to 599 other than 429, the call raises the HTTP error of
  \<open>raise_for_status\<close>, which carries the status and the body, and the cache is left
  as it was.
\<close>

theorem error_status_raises_HTTPError:
  assumes "\<not> cache_contains (cache w) now k"
    and "''headers'' \<notin> fst ` set (request_options h)"
    and "status_code r \<noteq> 429"
    and "400 \<le> status_code r"
    and "status_code r < 600"
  shows "fst (getDetails h now (Inr r) k w) = Inl (HTTPError (status_code r) (text_body r))
         \<and> cache (snd (getDetails h now (Inr r) k w)) = cache w
         \<and> \<not> cache_contains (cache (snd (getDetails h now (Inr r) k w))) now k"
proof -
  have "getDetails h now (Inr r) k w =
           (Inl (HTTPError (status_code r) (text_body r)),
            w\<lparr>sent := sent w @
                 [\<lparr>url = request_url k, headers = get_headers h, options = request_options h\<rparr>]\<rparr>)"
    by (rule getDetails_fail [OF requestDetails_error_status [OF assms]])
  with assms(1) show ?thesis by simp
qed

theorem error_status_raises_HTTPError_witness:
  "\<not> cache_contains (cache fresh_world) 0 (Some ''8.8.8.8'')
   \<and> ''headers'' \<notin> fst ` set (request_options stub_handler)
   \<and> status_code (stub_response 503) \<noteq> 429
   \<and> 400 \<le> status_code (stub_response 503)
   \<and> status_code (stub_response 503) < 600
   \<and> fst (getDetails stub_handler 0 (Inr (stub_response 503)) (Some ''8.8.8.8'') fresh_world)
       = Inl (HTTPError 503 (text_body (stub_response 503)))
   \<and> \<not> cache_contains
         (cache (snd (getDetails stub_handler 0 (Inr (stub_response 503)) (Some ''8.8.8.8'')
                        fresh_world))) 0 (Some ''8.8.8.8'')"
proof -
  have s: "status_code (stub_response 503) \<noteq> 429" "400 \<le> status_code (stub_response 503)"
    "status_code (stub_response 503) < 600"
    by (simp_all add: stub_response_def)
  from error_status_raises_HTTPError [OF stub_miss stub_options s, of 0 "Some ''8.8.8.8''"]
  show ?thesis
    using stub_miss [of 0 "Some ''8.8.8.8''"] stub_options s by (simp add: stub_response_def)
qed

text \<open>
  Claim C6 as stated fails for a status that is neither a success nor an error, such
  as 300: \<open>raise_for_status\<close> returns, the body is parsed and cached, and the call
  succeeds.
\<close>

theorem redirect_status_counterexample:
  "fst (getDetails stub_handler 0 (Inr (stub_response 300)) (Some ''8.8.8.8'') fresh_world)
     = Inr (Details 0)
   \<and> cache_contains
       (cache (snd (getDetails stub_handler 0 (Inr (stub_response 300)) (Some ''8.8.8.8'')
                      fresh_world))) 0 (Some ''8.8.8.8'')"
proof -
  have s: "status_code (stub_response 300) \<noteq> 429"
    "\<not> (400 \<le> status_code (stub_response 300) \<and> status_code (stub_response 300) < 600)"
    "body_json (stub_response 300) = Some stub_raw"
    by (simp_all add: stub_response_def)
  note st = getDetails_store [OF stub_miss stub_options s stub_room stub_enrich]
  have "next_addr fresh_world = 0" by (simp add: fresh_world_def)
  with st(1) st(5) [of 0 "Some ''8.8.8.8''" 0] stub_room(2) show ?thesis
    by (simp add: cache_contains_def)
qed

section \<open>The coordinates of the record\<close>





section \<open>Headers\<close>

lemma get_headers_fields:
  "map_of (get_headers h) ''user-agent'' =
     Some (''IPinfoClient/Python'' @ str_nat (version_major h) @ ''/'' @ setup_version)"
  "map_of (get_headers h) ''accept'' = Some ''application/json''"
  "map_of (get_headers h) ''authorization'' =
     (case access_token h of
        None \<Rightarrow> None
      | Some token \<Rightarrow> if token = [] then None else Some (''Bearer '' @ token))"
  by (cases "access_token h"; simp add: get_headers_def setup_version_def Let_def)+

text \<open>
  Claim C9. Every request a call of \<open>getDetails\<close> sends goes to the URL of the key
  with the headers of \<open>_get_headers\<close>: a user agent naming the client, the major
  version of the interpreter and the version of the package, \<open>accept\<close> equal to
  \<open>application/json\<close>, and \<open>authorization\<close> equal to \<open>Bearer\<close> and the token exactly
  when the handler has a token (a non-empty string); otherwise there is no such header.
\<close>

theorem outbound_request_headers:
  "\<forall>r \<in> set (drop (length (sent w)) (sent (snd (getDetails h now reply k w)))).
     url r = request_url k
     \<and> map_of (headers r) ''user-agent'' =
         Some (''IPinfoClient/Python'' @ str_nat (version_major h) @ ''/'' @ setup_version)
     \<and> map_of (headers r) ''accept'' = Some ''application/json''
     \<and> map_of (headers r) ''authorization'' =
         (case access_token h of
            None \<Rightarrow> None
          | Some token \<Rightarrow> if token = [] then None else Some (''Bearer '' @ token))"
proof -
  from getDetails_sent [of h now reply k w]
  have "drop (length (sent w)) (sent (snd (getDetails h now reply k w))) = []
        \<or> drop (length (sent w)) (sent (snd (getDetails h now reply k w))) =
            [\<lparr>url = request_url k, headers = get_headers h, options = request_options h\<rparr>]"
    by auto
  then show ?thesis
    by (auto simp: get_headers_fields)
qed

theorem outbound_request_headers_witness:
  "sent (snd (getDetails (stub_handler\<lparr>access_token := Some ''abc''\<rparr>) 0
                (Inr (stub_response 200)) (Some ''8.8.8.8'') fresh_world)) =
     [\<lparr>url = ''https://ipinfo.io/8.8.8.8'',
       headers = get_headers (stub_handler\<lparr>access_token := Some ''abc''\<rparr>),
       options = [(''timeout'', JInt 2)]\<rparr>]
   \<and> map_of (get_headers (stub_handler\<lparr>access_token := Some ''abc''\<rparr>)) ''user-agent''
       = Some ''IPinfoClient/Python3/2.0.0''
   \<and> map_of (get_headers (stub_handler\<lparr>access_token := Some ''abc''\<rparr>)) ''accept''
       = Some ''application/json''
   \<and> map_of (get_headers (stub_handler\<lparr>access_token := Some ''abc''\<rparr>)) ''authorization''
       = Some ''Bearer abc''"
proof -
  let ?h = "stub_handler\<lparr>access_token := Some ''abc''\<rparr>"
  have o: "''headers'' \<notin> fst ` set (request_options ?h)"
    using stub_options by simp
  have s: "status_code (stub_response 200) \<noteq> 429"
    "\<not> (400 \<le> status_code (stub_response 200) \<and> status_code (stub_response 200) < 600)"
    "body_json (stub_response 200) = Some stub_raw"
    by (simp_all add: stub_response_def)
  have e: "getDetails_enrich (countries ?h) stub_raw = (None, snd (getDetails_enrich (countries stub_handler) stub_raw))"
    by (simp add: stub_enrich)
  note st = getDetails_store [OF stub_miss o s stub_room e]
  have sent: "sent (snd (getDetails ?h 0 (Inr (stub_response 200)) (Some ''8.8.8.8'') fresh_world)) =
     [\<lparr>url = ''https://ipinfo.io/8.8.8.8'', headers = get_headers ?h,
       options = [(''timeout'', JInt 2)]\<rparr>]"
    unfolding st(3) by (simp add: fresh_world_def request_url_def API_URL_def stub_handler_def)
  from outbound_request_headers [of fresh_world ?h 0 "Inr (stub_response 200)" "Some ''8.8.8.8''"]
  have "map_of (get_headers ?h) ''user-agent'' = Some ''IPinfoClient/Python3/2.0.0''
        \<and> map_of (get_headers ?h) ''accept'' = Some ''application/json''
        \<and> map_of (get_headers ?h) ''authorization'' = Some ''Bearer abc''"
    unfolding sent by (simp add: fresh_world_def stub_handler_def str_nat.simps setup_version_def)
  with sent show ?thesis by simp
qed

section \<open>The returned record\<close>

lemma enrich_fields:
  assumes "getDetails_enrich cs raw = (None, v)"
  shows "\<exists>fs. v = JObj fs
           \<and> map_of fs ''country_name'' \<noteq> None
           \<and> map_of fs ''latitude'' \<noteq> None
           \<and> map_of fs ''longitude'' \<noteq> None
           \<and> (\<not> country_known cs (dict_get fs ''country'')
                \<longrightarrow> map_of fs ''country_name'' = Some JNull)
           \<and> ((\<forall>s x y. dict_get fs ''loc'' = JStr s \<longrightarrow> \<not> loc_shape s x y)
                \<longrightarrow> map_of fs ''latitude'' = Some JNull \<and> map_of fs ''longitude'' = Some JNull)"
proof -
  from enrich_None [OF assms] obtain d name lat lon where
    raw: "raw = JObj d"
    and n: "countries_get cs (dict_get d ''country'') = Inr name"
    and r: "read_coords (dict_get d ''loc'') = Inr (lat, lon)"
    and v: "v = JObj (setitem ''longitude'' lon
                       (setitem ''latitude'' lat (setitem ''country_name'' name d)))"
    by blast
  let ?fs = "setitem ''longitude'' lon (setitem ''latitude'' lat (setitem ''country_name'' name d))"
  have c: "dict_get ?fs ''country'' = dict_get d ''country''"
    and l: "dict_get ?fs ''loc'' = dict_get d ''loc''"
    by (simp_all add: dict_get_setitem)
  have m: "map_of ?fs ''country_name'' = Some name" "map_of ?fs ''latitude'' = Some lat"
    "map_of ?fs ''longitude'' = Some lon"
    by (simp_all add: map_of_setitem)
  have "\<not> country_known cs (dict_get ?fs ''country'') \<longrightarrow> name = JNull"
    using countries_get_unknown [OF n] c by simp
  moreover have "(\<forall>s x y. dict_get ?fs ''loc'' = JStr s \<longrightarrow> \<not> loc_shape s x y)
                   \<longrightarrow> lat = JNull \<and> lon = JNull"
    using read_coords_malformed [OF r] l by simp
  ultimately show ?thesis
    using v m by simp
qed

text \<open>
  Claim C10. The record a successful \<open>getDetails\<close> returns is a dict that has the
  three keys \<open>country_name\<close>, \<open>latitude\<close> and \<open>longitude\<close>. When the country is
  absent or no key of the table, \<open>country_name\<close> is there with the value \<open>None\<close>; when
  \<open>loc\<close> is absent or not of the one-comma shape, \<open>latitude\<close> and \<open>longitude\<close> are
  there with the value \<open>None\<close>.
\<close>

theorem returned_record_has_derived_keys:
  assumes "fst (getDetails h now reply k w) = Inr d"
  shows "\<exists>fs. details_all (snd (getDetails h now reply k w)) d = JObj fs
           \<and> map_of fs ''country_name'' \<noteq> None
           \<and> map_of fs ''latitude'' \<noteq> None
           \<and> map_of fs ''longitude'' \<noteq> None
           \<and> (\<not> country_known (countries h) (dict_get fs ''country'')
                \<longrightarrow> map_of fs ''country_name'' = Some JNull)
           \<and> ((\<forall>s x y. dict_get fs ''loc'' = JStr s \<longrightarrow> \<not> loc_shape s x y)
                \<longrightarrow> map_of fs ''latitude'' = Some JNull \<and> map_of fs ''longitude'' = Some JNull)"
proof -
  from getDetails_success [OF assms] obtain a raw v where
    d: "d = Details a"
    and e: "getDetails_enrich (countries h) raw = (None, v)"
    and hp: "heap (snd (getDetails h now reply k w)) a = v"
    by blast
  have "details_all (snd (getDetails h now reply k w)) d = v"
    using d hp by (simp add: details_all_def)
  with enrich_fields [OF e] show ?thesis by simp
qed

theorem returned_record_has_derived_keys_witness:
  "fst (getDetails stub_handler 0 (Inr bare_response) (Some ''8.8.8.8'') fresh_world)
     = Inr (Details 0)
   \<and> details_all (snd (getDetails stub_handler 0 (Inr bare_response) (Some ''8.8.8.8'')
                         fresh_world)) (Details 0)
     = JObj [(''ip'', JStr ''8.8.8.8''), (''country_name'', JNull),
             (''latitude'', JNull), (''longitude'', JNull)]"
proof -
  have s: "status_code bare_response \<noteq> 429"
    "\<not> (400 \<le> status_code bare_response \<and> status_code bare_response < 600)"
    "body_json bare_response = Some (JObj [(''ip'', JStr ''8.8.8.8'')])"
    by (simp_all add: bare_response_def)
  have e: "getDetails_enrich (countries stub_handler) (JObj [(''ip'', JStr ''8.8.8.8'')]) =
             (None, JObj [(''ip'', JStr ''8.8.8.8''), (''country_name'', JNull),
                          (''latitude'', JNull), (''longitude'', JNull)])"
    by (simp add: getDetails_enrich_def countries_get_def dict_get_def read_coords_def
          stub_handler_def)
  note st = getDetails_store [OF stub_miss stub_options s stub_room e]
  have a: "next_addr fresh_world = 0" by (simp add: fresh_world_def)
  have f: "fst (getDetails stub_handler 0 (Inr bare_response) (Some ''8.8.8.8'') fresh_world)
             = Inr (Details 0)"
    using st(1) a by simp
  from returned_record_has_derived_keys [OF f] st(2) a show ?thesis
    using f by (simp add: details_all_def)
qed

section \<open>Construction\<close>

lemma Handler_init_missing:
  "files env (country_file env (kw_countries_file kw)) = None \<Longrightarrow>
     Handler_init env token kw = Inl FileNotFoundError"
  by (simp add: Handler_init_def read_country_names_def)

lemma Handler_init_malformed:
  "files env (country_file env (kw_countries_file kw)) = Some contents \<Longrightarrow>
   json_loads env contents = None \<Longrightarrow>
     Handler_init env token kw = Inl JSONDecodeError"
  by (simp add: Handler_init_def read_country_names_def)

lemma Handler_init_loaded:
  "files env (country_file env (kw_countries_file kw)) = Some contents \<Longrightarrow>
   json_loads env contents = Some v \<Longrightarrow>
     \<exists>h c. Handler_init env token kw = Inr (h, c) \<and> countries h = v"
  by (simp add: Handler_init_def read_country_names_def Let_def)

text \<open>
  Claim C7, as amended. Construction fails at once when the country file is missing,
  with the \<open>FileNotFoundError\<close> of \<open>open\<close>, and when its text is not JSON, with the
  decoding error of \<open>json.loads\<close>; neither is wrapped, and no \<open>ConfigurationError\<close>
  is ever raised. There is no fallback: a handler is only constructed with the table
  decoded from the file.
\<close>

theorem construction_fails_fast:
  "(files env (country_file env (kw_countries_file kw)) = None
      \<longrightarrow> Handler_init env token kw = Inl FileNotFoundError)
   \<and> (\<forall>contents. files env (country_file env (kw_countries_file kw)) = Some contents
              \<and> json_loads env contents = None
      \<longrightarrow> Handler_init env token kw = Inl JSONDecodeError)
   \<and> Handler_init env token kw \<noteq> Inl ConfigurationError
   \<and> (\<forall>h c. Handler_init env token kw = Inr (h, c)
      \<longrightarrow> (\<exists>contents. files env (country_file env (kw_countries_file kw)) = Some contents
                 \<and> json_loads env contents = Some (countries h)))"
proof (cases "files env (country_file env (kw_countries_file kw))")
  case None
  then show ?thesis by (simp add: Handler_init_missing)
next
  case (Some contents)
  show ?thesis
  proof (cases "json_loads env contents")
    case None
    with Some show ?thesis by (simp add: Handler_init_malformed)
  next
    case loaded: (Some v)
    from Handler_init_loaded [OF Some loaded, of token]
    show ?thesis using Some loaded by auto
  qed
qed

theorem construction_fails_fast_witness:
  "files stub_environment (country_file stub_environment (kw_countries_file no_kwargs)) = None
   \<and> Handler_init stub_environment None no_kwargs = Inl FileNotFoundError
   \<and> Handler_init (stub_environment\<lparr>files := (\<lambda>p. Some ''not json'')\<rparr>) None no_kwargs
       = Inl JSONDecodeError"
proof -
  have m: "files stub_environment (country_file stub_environment (kw_countries_file no_kwargs)) = None"
    by (simp add: stub_environment_def)
  let ?env = "stub_environment\<lparr>files := (\<lambda>p. Some ''not json'')\<rparr>"
  have j: "files ?env (country_file ?env (kw_countries_file no_kwargs)) = Some ''not json''
           \<and> json_loads ?env ''not json'' = None"
    by (simp add: stub_environment_def)
  from m construction_fails_fast [of stub_environment no_kwargs None]
  have "Handler_init stub_environment None no_kwargs = Inl FileNotFoundError"
    by blast
  moreover from j construction_fails_fast [of ?env no_kwargs None]
  have "Handler_init ?env None no_kwargs = Inl JSONDecodeError"
    by blast
  ultimately show ?thesis using m by simp
qed

text \<open>
  Claim C7 as stated fails: with the country file missing, construction raises
  \<open>FileNotFoundError\<close>, which is not a \<open>ConfigurationError\<close>.
\<close>

theorem missing_file_counterexample:
  "Handler_init stub_environment None no_kwargs = Inl FileNotFoundError
   \<and> Handler_init stub_environment None no_kwargs \<noteq> Inl ConfigurationError"
  by (simp add: Handler_init_def read_country_names_def stub_environment_def)

section \<open>Two calls in succession\<close>

lemma second_call_hits:
  assumes ok: "fst (getDetails h now1 reply1 k w) = Inr d"
    and live: "cache_contains (cache (snd (getDetails h now1 reply1 k w))) now2 k"
    and same: "cache_lookup (cache (snd (getDetails h now1 reply1 k w))) now2 k
               = cache_lookup (cache (snd (getDetails h now1 reply1 k w))) now1 k"
  shows "sent (snd (getDetails h now2 reply2 k (snd (getDetails h now1 reply1 k w))))
           = sent (snd (getDetails h now1 reply1 k w))"
    and "fst (getDetails h now2 reply2 k (snd (getDetails h now1 reply1 k w))) = Inr d"
    and "heap (snd (getDetails h now2 reply2 k (snd (getDetails h now1 reply1 k w))))
           = heap (snd (getDetails h now1 reply1 k w))"
proof -
  let ?w1 = "snd (getDetails h now1 reply1 k w)"
  from getDetails_success [OF ok] obtain a raw v where
    d: "d = Details a"
    and e: "getDetails_enrich (countries h) raw = (None, v)"
    and hp: "heap ?w1 a = v"
    and l1: "cache_lookup (cache ?w1) now1 k = Some a"
    by blast
  have l2: "cache_lookup (cache ?w1) now2 k = Some a"
    using same l1 by simp
  have "getDetails_enrich (countries h) (snd (getDetails_enrich (countries h) raw))
          = getDetails_enrich (countries h) raw"
    by (rule enrich_again)
  then have e2: "getDetails_enrich (countries h) (heap ?w1 a) = (None, v)"
    using e hp by simp
  note hit = getDetails_hit [OF l2 e2]
  show "sent (snd (getDetails h now2 reply2 k ?w1)) = sent ?w1"
    by (rule hit(3))
  show "fst (getDetails h now2 reply2 k ?w1) = Inr d"
    using hit(1) d by simp
  show "heap (snd (getDetails h now2 reply2 k ?w1)) = heap ?w1"
    using hit(2) hp by (simp add: fun_upd_idem)
qed

lemma cache_lookup_one_object:
  "cache_lookup c t1 k = Some a \<Longrightarrow> cache_lookup c t2 k = Some b \<Longrightarrow> a = b"
  by (auto simp: cache_lookup_def split: option.splits if_splits)

lemma hit_after_success:
  assumes ok: "fst (getDetails h now1 reply1 k w) = Inr d"
    and live: "cache_contains (cache (snd (getDetails h now1 reply1 k w))) now2 k"
  shows "sent (snd (getDetails h now2 reply2 k (snd (getDetails h now1 reply1 k w))))
           = sent (snd (getDetails h now1 reply1 k w))"
    and "fst (getDetails h now2 reply2 k (snd (getDetails h now1 reply1 k w))) = Inr d"
    and "heap (snd (getDetails h now2 reply2 k (snd (getDetails h now1 reply1 k w))))
           = heap (snd (getDetails h now1 reply1 k w))"
proof -
  let ?w1 = "snd (getDetails h now1 reply1 k w)"
  from getDetails_success [OF ok] obtain a where
    l1: "cache_lookup (cache ?w1) now1 k = Some a"
    by blast
  from live obtain b where l2: "cache_lookup (cache ?w1) now2 k = Some b"
    by (auto simp: cache_contains_def)
  have "a = b"
    by (rule cache_lookup_one_object [OF l1 l2])
  with l1 l2 have same: "cache_lookup (cache ?w1) now2 k = cache_lookup (cache ?w1) now1 k"
    by simp
  show "sent (snd (getDetails h now2 reply2 k ?w1)) = sent ?w1"
    by (rule second_call_hits(1) [OF ok live same])
  show "fst (getDetails h now2 reply2 k ?w1) = Inr d"
    by (rule second_call_hits(2) [OF ok live same])
  show "heap (snd (getDetails h now2 reply2 k ?w1)) = heap ?w1"
    by (rule second_call_hits(3) [OF ok live same])
qed

lemma live_after_success:
  assumes ok: "fst (getDetails h now1 reply1 k w) = Inr d"
  shows "cache_contains (cache (snd (getDetails h now1 reply1 k w))) now2 k
           \<longleftrightarrow> (if cache_contains (cache w) now1 k then cache_contains (cache w) now2 k
                else now2 < now1 + ttl (cache w))"
proof -
  let ?w1 = "snd (getDetails h now1 reply1 k w)"
  from getDetails_success [OF ok] obtain a where
    l: "\<forall>t. (cache_contains (cache w) now1 k \<longrightarrow>
                cache_lookup (cache ?w1) t k = cache_lookup (cache w) t k)
           \<and> (\<not> cache_contains (cache w) now1 k \<longrightarrow>
                cache_lookup (cache ?w1) t k
                  = (if t < now1 + ttl (cache w) then Some a else None))"
    by blast
  show ?thesis
  proof (cases "cache_contains (cache w) now1 k")
    case True
    with l have "cache_lookup (cache ?w1) now2 k = cache_lookup (cache w) now2 k"
      by simp
    with True show ?thesis by (simp add: cache_contains_def)
  next
    case False
    with l have "cache_lookup (cache ?w1) now2 k
                   = (if now2 < now1 + ttl (cache w) then Some a else None)"
      by simp
    with False show ?thesis by (simp add: cache_contains_def)
  qed
qed

text \<open>
  Claim C2, as amended. When a call of \<open>getDetails\<close> for a key has returned a record
  and a second call for the key comes while the entry of the key is still live, that
  is within the time to live of the first call when that call had to fetch, and
  before the expiry of the entry it found when it did not, then the second call finds
  the key in the cache, sends no request whatever the transport would answer, and
  returns the same record with the same fields; the two calls together have sent at
  most one request. The entry is live at the second call in exactly these cases.
\<close>

theorem second_call_served_from_cache:
  assumes "fst (getDetails h now1 reply1 k w) = Inr d"
    and "if cache_contains (cache w) now1 k then cache_contains (cache w) now2 k
         else now2 < now1 + ttl (cache w)"
  shows "cache_contains (cache (snd (getDetails h now1 reply1 k w))) now2 k
         \<and> sent (snd (getDetails h now2 reply2 k (snd (getDetails h now1 reply1 k w))))
             = sent (snd (getDetails h now1 reply1 k w))
         \<and> length (sent (snd (getDetails h now2 reply2 k (snd (getDetails h now1 reply1 k w)))))
             \<le> Suc (length (sent w))
         \<and> fst (getDetails h now2 reply2 k (snd (getDetails h now1 reply1 k w))) = Inr d
         \<and> details_all (snd (getDetails h now2 reply2 k (snd (getDetails h now1 reply1 k w)))) d
             = details_all (snd (getDetails h now1 reply1 k w)) d
         \<and> (\<forall>t. cache_contains (cache (snd (getDetails h now1 reply1 k w))) t k
                 \<longleftrightarrow> (if cache_contains (cache w) now1 k then cache_contains (cache w) t k
                      else t < now1 + ttl (cache w)))"
proof -
  let ?w1 = "snd (getDetails h now1 reply1 k w)"
  let ?w2 = "snd (getDetails h now2 reply2 k ?w1)"
  have live: "cache_contains (cache ?w1) now2 k"
    using live_after_success [OF assms(1), of now2] assms(2) by simp
  note hit = hit_after_success [OF assms(1) live]
  have s: "sent ?w2 = sent ?w1"
    by (rule hit(1))
  have le: "length (sent ?w2) \<le> Suc (length (sent w))"
    using getDetails_sent_le [of h now1 reply1 k w] s by simp
  have f: "fst (getDetails h now2 reply2 k ?w1) = Inr d"
    by (rule hit(2))
  have "heap ?w2 = heap ?w1"
    by (rule hit(3))
  then have da: "details_all ?w2 d = details_all ?w1 d"
    unfolding details_all_def by (simp only:)
  have exactly: "\<forall>t. cache_contains (cache ?w1) t k
                 \<longleftrightarrow> (if cache_contains (cache w) now1 k then cache_contains (cache w) t k
                      else t < now1 + ttl (cache w))"
    using live_after_success [OF assms(1)] by blast
  from live s le f da exactly show ?thesis
    by (intro conjI)
qed

lemma stub_fetch:
  assumes miss: "\<not> cache_contains (cache w) now k"
    and room: "0 < maxsize (cache w)" "0 < ttl (cache w)"
  shows "fst (getDetails stub_handler now (Inr (stub_response 200)) k w)
           = Inr (Details (next_addr w))"
    and "heap (snd (getDetails stub_handler now (Inr (stub_response 200)) k w)) (next_addr w)
           = JObj [(''ip'', JStr ''8.8.8.8''), (''country'', JStr ''US''),
                   (''loc'', JStr ''37.751,-97.822''),
                   (''country_name'', JStr ''United States''),
                   (''latitude'', JStr ''37.751''), (''longitude'', JStr ''-97.822'')]"
    and "cache_lookup (cache (snd (getDetails stub_handler now (Inr (stub_response 200)) k w))) t k
           = (if t < now + ttl (cache w) then Some (next_addr w) else None)"
    and "sent (snd (getDetails stub_handler now (Inr (stub_response 200)) k w))
           = sent w @ [\<lparr>url = request_url k, headers = get_headers stub_handler,
                        options = request_options stub_handler\<rparr>]"
    and "ttl (cache (snd (getDetails stub_handler now (Inr (stub_response 200)) k w)))
           = ttl (cache w)"
    and "maxsize (cache (snd (getDetails stub_handler now (Inr (stub_response 200)) k w)))
           = maxsize (cache w)"
proof -
  have s: "status_code (stub_response 200) \<noteq> 429"
    "\<not> (400 \<le> status_code (stub_response 200) \<and> status_code (stub_response 200) < 600)"
    "body_json (stub_response 200) = Some stub_raw"
    by (simp_all add: stub_response_def)
  note st = getDetails_store [OF miss stub_options s room stub_enrich]
  show "fst (getDetails stub_handler now (Inr (stub_response 200)) k w)
           = Inr (Details (next_addr w))"
    using st(1) by simp
  show "heap (snd (getDetails stub_handler now (Inr (stub_response 200)) k w)) (next_addr w)
           = JObj [(''ip'', JStr ''8.8.8.8''), (''country'', JStr ''US''),
                   (''loc'', JStr ''37.751,-97.822''),
                   (''country_name'', JStr ''United States''),
                   (''latitude'', JStr ''37.751''), (''longitude'', JStr ''-97.822'')]"
    using st(2) by simp
  show "cache_lookup (cache (snd (getDetails stub_handler now (Inr (stub_response 200)) k w))) t k
           = (if t < now + ttl (cache w) then Some (next_addr w) else None)"
    by (rule st(5))
  show "sent (snd (getDetails stub_handler now (Inr (stub_response 200)) k w))
           = sent w @ [\<lparr>url = request_url k, headers = get_headers stub_handler,
                        options = request_options stub_handler\<rparr>]"
    by (rule st(3))
  show "ttl (cache (snd (getDetails stub_handler now (Inr (stub_response 200)) k w)))
           = ttl (cache w)"
    by (rule st(6))
  show "maxsize (cache (snd (getDetails stub_handler now (Inr (stub_response 200)) k w)))
           = maxsize (cache w)"
    by (rule st(7))
qed

lemma fresh_world_fields:
  "next_addr fresh_world = 0" "ttl (cache fresh_world) = CACHE_TTL"
  "maxsize (cache fresh_world) = CACHE_MAXSIZE" "sent fresh_world = []"
  by (simp_all add: fresh_world_def DefaultCache_def)

lemma stub_first_call:
  "fst (getDetails stub_handler now (Inr (stub_response 200)) k fresh_world) = Inr (Details 0)"
  "heap (snd (getDetails stub_handler now (Inr (stub_response 200)) k fresh_world)) 0
     = JObj [(''ip'', JStr ''8.8.8.8''), (''country'', JStr ''US''),
             (''loc'', JStr ''37.751,-97.822''),
             (''country_name'', JStr ''United States''),
             (''latitude'', JStr ''37.751''), (''longitude'', JStr ''-97.822'')]"
  "cache_lookup (cache (snd (getDetails stub_handler now (Inr (stub_response 200)) k fresh_world))) t k
     = (if t < now + CACHE_TTL then Some 0 else None)"
  "sent (snd (getDetails stub_handler now (Inr (stub_response 200)) k fresh_world))
     = [\<lparr>url = request_url k, headers = get_headers stub_handler,
         options = request_options stub_handler\<rparr>]"
  "ttl (cache (snd (getDetails stub_handler now (Inr (stub_response 200)) k fresh_world)))
     = CACHE_TTL"
  "maxsize (cache (snd (getDetails stub_handler now (Inr (stub_response 200)) k fresh_world)))
     = CACHE_MAXSIZE"
  using stub_fetch [OF stub_miss stub_room, of now k] fresh_world_fields
  by simp_all

theorem second_call_served_from_cache_witness:
  "fst (getDetails stub_handler 0 (Inr (stub_response 200)) (Some ''8.8.8.8'') fresh_world)
     = Inr (Details 0)
   \<and> (10::nat) < 0 + ttl (cache fresh_world)
   \<and> length (sent (snd (getDetails stub_handler 0 (Inr (stub_response 200)) (Some ''8.8.8.8'')
                          fresh_world))) = 1
   \<and> sent (snd (getDetails stub_handler 10 (Inr (stub_response 429)) (Some ''8.8.8.8'')
                  (snd (getDetails stub_handler 0 (Inr (stub_response 200)) (Some ''8.8.8.8'')
                          fresh_world))))
       = sent (snd (getDetails stub_handler 0 (Inr (stub_response 200)) (Some ''8.8.8.8'')
                      fresh_world))
   \<and> fst (getDetails stub_handler 10 (Inr (stub_response 429)) (Some ''8.8.8.8'')
           (snd (getDetails stub_handler 0 (Inr (stub_response 200)) (Some ''8.8.8.8'')
                   fresh_world)))
       = Inr (Details 0)
   \<and> details_all
        (snd (getDetails stub_handler 10 (Inr (stub_response 429)) (Some ''8.8.8.8'')
           (snd (getDetails stub_handler 0 (Inr (stub_response 200)) (Some ''8.8.8.8'')
                   fresh_world)))) (Details 0)
       = JObj [(''ip'', JStr ''8.8.8.8''), (''country'', JStr ''US''),
               (''loc'', JStr ''37.751,-97.822''),
               (''country_name'', JStr ''United States''),
               (''latitude'', JStr ''37.751''), (''longitude'', JStr ''-97.822'')]"
proof -
  let ?k = "Some ''8.8.8.8''"
  let ?w1 = "snd (getDetails stub_handler 0 (Inr (stub_response 200)) ?k fresh_world)"
  note first = stub_first_call(1) [of 0 ?k]
  have t: "(10::nat) < 0 + ttl (cache fresh_world)"
    by (simp add: fresh_world_fields CACHE_TTL_def)
  have live: "if cache_contains (cache fresh_world) 0 ?k
              then cache_contains (cache fresh_world) 10 ?k
              else 10 < 0 + ttl (cache fresh_world)"
    using stub_miss [of 0 ?k] t by simp
  note second = second_call_served_from_cache [OF first live, of "Inr (stub_response 429)"]
  have one: "length (sent ?w1) = 1"
    by (simp add: stub_first_call(4))
  have rec: "details_all ?w1 (Details 0)
               = JObj [(''ip'', JStr ''8.8.8.8''), (''country'', JStr ''US''),
                       (''loc'', JStr ''37.751,-97.822''),
                       (''country_name'', JStr ''United States''),
                       (''latitude'', JStr ''37.751''), (''longitude'', JStr ''-97.822'')]"
    by (simp add: details_all_def stub_first_call(2))
  from second rec
  have "details_all (snd (getDetails stub_handler 10 (Inr (stub_response 429)) ?k ?w1)) (Details 0)
               = JObj [(''ip'', JStr ''8.8.8.8''), (''country'', JStr ''US''),
                       (''loc'', JStr ''37.751,-97.822''),
                       (''country_name'', JStr ''United States''),
                       (''latitude'', JStr ''37.751''), (''longitude'', JStr ''-97.822'')]"
    by simp
  with first t one second show ?thesis
    by simp
qed

text \<open>
  Claim C2 as stated fails in two ways. A first call answered 429 raises and caches
  nothing, so a second call ten seconds later sends a second request. And a call that
  is served from an entry about to expire, at 86399, does not renew it: the next call,
  at 86405, comes within the time to live of that call and still has to fetch.
\<close>

theorem two_calls_two_requests_counterexample:
  "(10::nat) < 0 + ttl (cache fresh_world)
   \<and> fst (getDetails stub_handler 0 (Inr (stub_response 429)) (Some ''8.8.8.8'') fresh_world)
       = Inl RequestQuotaExceededError
   \<and> length (sent (snd (getDetails stub_handler 10 (Inr (stub_response 200)) (Some ''8.8.8.8'')
                          (snd (getDetails stub_handler 0 (Inr (stub_response 429))
                                  (Some ''8.8.8.8'') fresh_world)))))
       = 2
   \<and> (86405::nat) < 86399 + CACHE_TTL
   \<and> fst (getDetails stub_handler 86399 (Inr (stub_response 200)) (Some ''8.8.8.8'')
           (snd (getDetails stub_handler 0 (Inr (stub_response 200)) (Some ''8.8.8.8'')
                   fresh_world)))
       = Inr (Details 0)
   \<and> sent (snd (getDetails stub_handler 86399 (Inr (stub_response 200)) (Some ''8.8.8.8'')
           (snd (getDetails stub_handler 0 (Inr (stub_response 200)) (Some ''8.8.8.8'')
                   fresh_world))))
       = sent (snd (getDetails stub_handler 0 (Inr (stub_response 200)) (Some ''8.8.8.8'')
                   fresh_world))
   \<and> length (sent (snd (getDetails stub_handler 86405 (Inr (stub_response 200)) (Some ''8.8.8.8'')
        (snd (getDetails stub_handler 86399 (Inr (stub_response 200)) (Some ''8.8.8.8'')
           (snd (getDetails stub_handler 0 (Inr (stub_response 200)) (Some ''8.8.8.8'')
                   fresh_world)))))))
       = 2"
proof -
  let ?k = "Some ''8.8.8.8''"
  let ?ok = "Inr (stub_response 200) :: exn + response"
  have t: "(10::nat) < 0 + ttl (cache fresh_world)"
    by (simp add: fresh_world_fields CACHE_TTL_def)
  \<comment> \<open>429, then 200\<close>
  let ?q = "snd (getDetails stub_handler 0 (Inr (stub_response 429)) ?k fresh_world)"
  have s429: "status_code (stub_response 429) = 429"
    by (simp add: stub_response_def)
  have q: "getDetails stub_handler 0 (Inr (stub_response 429)) ?k fresh_world =
             (Inl RequestQuotaExceededError,
              fresh_world\<lparr>sent := sent fresh_world @
                 [\<lparr>url = request_url ?k, headers = get_headers stub_handler,
                   options = request_options stub_handler\<rparr>]\<rparr>)"
    by (rule getDetails_fail [OF requestDetails_429 [OF stub_miss stub_options s429]])
  have q1: "fst (getDetails stub_handler 0 (Inr (stub_response 429)) ?k fresh_world)
              = Inl RequestQuotaExceededError"
    by (simp add: q)
  have qc: "cache ?q = cache fresh_world" and qs: "length (sent ?q) = 1"
    by (simp_all add: q fresh_world_fields)
  have qmiss: "\<not> cache_contains (cache ?q) 10 ?k"
    using stub_miss [of 10 ?k] by (simp add: qc)
  have qroom: "0 < maxsize (cache ?q)" "0 < ttl (cache ?q)"
    using stub_room by (simp_all add: qc)
  have two1: "length (sent (snd (getDetails stub_handler 10 ?ok ?k ?q))) = 2"
    using qs by (simp add: stub_fetch(4) [OF qmiss qroom])
  \<comment> \<open>a hit at 86399, then a miss at 86405\<close>
  let ?w1 = "snd (getDetails stub_handler 0 ?ok ?k fresh_world)"
  let ?w2 = "snd (getDetails stub_handler 86399 ?ok ?k ?w1)"
  have t2: "(86405::nat) < 86399 + CACHE_TTL"
    by (simp add: CACHE_TTL_def)
  have look: "cache_lookup (cache ?w1) 86399 ?k = Some 0"
    by (simp add: stub_first_call(3) CACHE_TTL_def)
  have gone: "cache_lookup (cache ?w1) 86405 ?k = None"
    by (simp add: stub_first_call(3) CACHE_TTL_def)
  have "getDetails_enrich (countries stub_handler)
          (snd (getDetails_enrich (countries stub_handler) stub_raw))
        = getDetails_enrich (countries stub_handler) stub_raw"
    by (rule enrich_again)
  then have enr: "getDetails_enrich (countries stub_handler) (heap ?w1 0)
                    = (None, heap ?w1 0)"
    by (simp add: stub_enrich stub_first_call(2))
  note hit = getDetails_hit [OF look enr]
  have h1: "fst (getDetails stub_handler 86399 ?ok ?k ?w1) = Inr (Details 0)"
    using hit(1) by simp
  have h2: "sent ?w2 = sent ?w1"
    by (rule hit(3))
  have "cache_lookup (cache ?w2) 86405 ?k = cache_lookup (cache ?w1) 86405 ?k"
    by (rule cache_lookup_cong [OF hit(5)])
  then have miss2: "\<not> cache_contains (cache ?w2) 86405 ?k"
    using gone by (simp add: cache_contains_def)
  have room2: "0 < maxsize (cache ?w2)" "0 < ttl (cache ?w2)"
    by (simp_all add: hit(6) hit(7) stub_first_call(5) stub_first_call(6)
          CACHE_TTL_def CACHE_MAXSIZE_def)
  have two2: "length (sent (snd (getDetails stub_handler 86405 ?ok ?k ?w2))) = 2"
    by (simp add: stub_fetch(4) [OF miss2 room2] h2 stub_first_call(4))
  from t q1 two1 t2 h1 h2 two2 show ?thesis
    by (intro conjI)
qed

section \<open>What the cache holds\<close>

lemma requestDetails_stored:
  assumes miss: "\<not> cache_contains (cache w) now k"
    and opts: "''headers'' \<notin> fst ` set (request_options h)"
    and st: "status_code r \<noteq> 429" "\<not> (400 \<le> status_code r \<and> status_code r < 600)"
    and body: "body_json r = Some raw"
    and room: "0 < maxsize (cache w)" "0 < ttl (cache w)"
  shows "fst (requestDetails h now (Inr r) k w) = Inr (next_addr w)"
    and "heap (snd (requestDetails h now (Inr r) k w)) = (heap w)(next_addr w := raw)"
    and "cache_lookup (cache (snd (requestDetails h now (Inr r) k w))) now k = Some (next_addr w)"
proof -
  let ?a = "next_addr w"
  let ?w1 = "w\<lparr>sent := sent w @
               [\<lparr>url = request_url k, headers = get_headers h, options = request_options h\<rparr>],
            heap := (heap w)(?a := raw),
            next_addr := Suc ?a,
            cache := cache_setitem (cache w) now k ?a\<rparr>"
  have rd: "requestDetails h now (Inr r) k w = cache_read now k ?w1"
    by (rule requestDetails_store [OF miss opts st body])
  have look: "cache_lookup (cache ?w1) now k = Some ?a"
    using room by (simp add: cache_lookup_setitem)
  from cache_read_hit [OF look] obtain c' where
    cr: "cache_read now k ?w1 = (Inr ?a, ?w1\<lparr>cache := c'\<rparr>)"
    and c': "map_of (entries c') = map_of (entries (cache ?w1))"
    by blast
  have g: "requestDetails h now (Inr r) k w = (Inr ?a, ?w1\<lparr>cache := c'\<rparr>)"
    using rd cr by simp
  have "cache_lookup c' now k = cache_lookup (cache ?w1) now k"
    by (rule cache_lookup_cong [OF c'])
  then have l: "cache_lookup c' now k = Some ?a"
    using look by simp
  show "fst (requestDetails h now (Inr r) k w) = Inr (next_addr w)"
    by (simp add: g)
  show "heap (snd (requestDetails h now (Inr r) k w)) = (heap w)(next_addr w := raw)"
    by (simp add: g)
  show "cache_lookup (cache (snd (requestDetails h now (Inr r) k w))) now k = Some (next_addr w)"
    using l by (simp add: g)
qed

lemma hit_writes_enrichment:
  assumes "cache_contains (cache w) now k"
  shows "sent (snd (getDetails h now reply k w)) = sent w"
    and "next_addr (snd (getDetails h now reply k w)) = next_addr w"
    and "map_of (entries (cache (snd (getDetails h now reply k w)))) = map_of (entries (cache w))"
    and "\<exists>a. cache_lookup (cache w) now k = Some a
           \<and> heap (snd (getDetails h now reply k w))
               = (heap w)(a := snd (getDetails_enrich (countries h) (heap w a)))"
proof -
  from assms obtain a where look: "cache_lookup (cache w) now k = Some a"
    by (auto simp: cache_contains_def)
  obtain err v where enr: "getDetails_enrich (countries h) (heap w a) = (err, v)"
    by (cases "getDetails_enrich (countries h) (heap w a)")
  note hit = getDetails_hit [OF look enr]
  show "sent (snd (getDetails h now reply k w)) = sent w"
    by (rule hit(3))
  show "next_addr (snd (getDetails h now reply k w)) = next_addr w"
    by (rule hit(4))
  show "map_of (entries (cache (snd (getDetails h now reply k w)))) = map_of (entries (cache w))"
    by (rule hit(5))
  have "heap (snd (getDetails h now reply k w))
          = (heap w)(a := snd (getDetails_enrich (countries h) (heap w a)))"
    using hit(2) enr by simp
  with look show "\<exists>a. cache_lookup (cache w) now k = Some a
           \<and> heap (snd (getDetails h now reply k w))
               = (heap w)(a := snd (getDetails_enrich (countries h) (heap w a)))"
    by blast
qed

lemma hit_keeps_enriched:
  assumes live: "cache_contains (cache w) now k"
    and enriched: "cached_value w now k = Some (snd (getDetails_enrich (countries h) x))"
  shows "heap (snd (getDetails h now reply k w)) = heap w"
    and "cached_value (snd (getDetails h now reply k w)) now k = cached_value w now k"
proof -
  note hit = hit_writes_enrichment [OF live, of h reply]
  from hit(4) obtain a where look: "cache_lookup (cache w) now k = Some a"
    and hp: "heap (snd (getDetails h now reply k w))
               = (heap w)(a := snd (getDetails_enrich (countries h) (heap w a)))"
    by blast
  from enriched look have "heap w a = snd (getDetails_enrich (countries h) x)"
    by (simp add: cached_value_def)
  moreover have "getDetails_enrich (countries h) (snd (getDetails_enrich (countries h) x))
                   = getDetails_enrich (countries h) x"
    by (rule enrich_again)
  ultimately have "snd (getDetails_enrich (countries h) (heap w a)) = heap w a"
    by simp
  with hp show same: "heap (snd (getDetails h now reply k w)) = heap w"
    by (simp add: fun_upd_idem)
  have "cache_lookup (cache (snd (getDetails h now reply k w))) now k
          = cache_lookup (cache w) now k"
    by (rule cache_lookup_cong [OF hit(3)])
  with same show "cached_value (snd (getDetails h now reply k w)) now k = cached_value w now k"
    by (simp add: cached_value_def)
qed

lemma enriched_after_success:
  assumes ok: "fst (getDetails h now0 reply0 k w0) = Inr d0"
    and live: "cache_contains (cache (snd (getDetails h now0 reply0 k w0))) now k"
  shows "\<exists>x. cached_value (snd (getDetails h now0 reply0 k w0)) now k
               = Some (snd (getDetails_enrich (countries h) x))"
proof -
  let ?w = "snd (getDetails h now0 reply0 k w0)"
  from getDetails_success [OF ok] obtain a raw v where
    e: "getDetails_enrich (countries h) raw = (None, v)"
    and hp: "heap ?w a = v"
    and l0: "cache_lookup (cache ?w) now0 k = Some a"
    by blast
  from live obtain b where l: "cache_lookup (cache ?w) now k = Some b"
    by (auto simp: cache_contains_def)
  have "a = b"
    by (rule cache_lookup_one_object [OF l0 l])
  with l hp e have "cached_value ?w now k = Some (snd (getDetails_enrich (countries h) raw))"
    by (simp add: cached_value_def)
  then show ?thesis by blast
qed

text \<open>
  Claim C1, as amended. The orchestrator writes the cache only on a miss, and what it
  stores then is the object parsed from the response body. A call of \<open>getDetails\<close>
  whose key is in the cache sends no request, creates no object, leaves every key bound
  to the object and the expiry it had, and writes to one object only, the one cached
  for its key, which it replaces by its enrichment. So a hit leaves the cached value
  unchanged whenever that value is what an enrichment with the table of the handler
  has left, as it is after every successful call for the key; a raw value in the cache
  it would enrich in place. The enrichment writes into the very object the cache
  holds, so after a successful call the cache holds, for the key, the returned record
  itself, with \<open>country_name\<close>, \<open>latitude\<close> and \<open>longitude\<close> in it.
\<close>

theorem cache_holds_returned_record:
  "(cache_contains (cache w) now k \<longrightarrow>
      sent (snd (getDetails h now reply k w)) = sent w
      \<and> next_addr (snd (getDetails h now reply k w)) = next_addr w
      \<and> map_of (entries (cache (snd (getDetails h now reply k w)))) = map_of (entries (cache w))
      \<and> (\<exists>a. cache_lookup (cache w) now k = Some a
             \<and> heap (snd (getDetails h now reply k w))
                 = (heap w)(a := snd (getDetails_enrich (countries h) (heap w a))))
      \<and> ((\<exists>x. cached_value w now k = Some (snd (getDetails_enrich (countries h) x)))
            \<longrightarrow> heap (snd (getDetails h now reply k w)) = heap w
                \<and> cached_value (snd (getDetails h now reply k w)) now k = cached_value w now k))
   \<and> (\<forall>d0. fst (getDetails h now0 reply0 k w0) = Inr d0
             \<and> cache_contains (cache (snd (getDetails h now0 reply0 k w0))) now k
        \<longrightarrow> heap (snd (getDetails h now reply k (snd (getDetails h now0 reply0 k w0))))
              = heap (snd (getDetails h now0 reply0 k w0))
            \<and> cached_value (snd (getDetails h now reply k (snd (getDetails h now0 reply0 k w0))))
                 now k
              = cached_value (snd (getDetails h now0 reply0 k w0)) now k)
   \<and> (\<forall>a. \<not> cache_contains (cache w) now k
            \<and> fst (requestDetails h now reply k w) = Inr a
        \<longrightarrow> cached_value (snd (requestDetails h now reply k w)) now k
              = Some (heap (snd (requestDetails h now reply k w)) a)
            \<and> (\<exists>r. reply = Inr r
                   \<and> body_json r = Some (heap (snd (requestDetails h now reply k w)) a)))
   \<and> (\<forall>d. fst (getDetails h now reply k w) = Inr d
        \<longrightarrow> cached_value (snd (getDetails h now reply k w)) now k
              = Some (details_all (snd (getDetails h now reply k w)) d)
            \<and> (\<exists>fs. details_all (snd (getDetails h now reply k w)) d = JObj fs
                   \<and> map_of fs ''country_name'' \<noteq> None
                   \<and> map_of fs ''latitude'' \<noteq> None
                   \<and> map_of fs ''longitude'' \<noteq> None))"
proof (intro conjI)
  show "cache_contains (cache w) now k \<longrightarrow>
      sent (snd (getDetails h now reply k w)) = sent w
      \<and> next_addr (snd (getDetails h now reply k w)) = next_addr w
      \<and> map_of (entries (cache (snd (getDetails h now reply k w)))) = map_of (entries (cache w))
      \<and> (\<exists>a. cache_lookup (cache w) now k = Some a
             \<and> heap (snd (getDetails h now reply k w))
                 = (heap w)(a := snd (getDetails_enrich (countries h) (heap w a))))
      \<and> ((\<exists>x. cached_value w now k = Some (snd (getDetails_enrich (countries h) x)))
            \<longrightarrow> heap (snd (getDetails h now reply k w)) = heap w
                \<and> cached_value (snd (getDetails h now reply k w)) now k = cached_value w now k)"
  proof
    assume live: "cache_contains (cache w) now k"
    note hit = hit_writes_enrichment [OF live, of h reply]
    have keep: "(\<exists>x. cached_value w now k = Some (snd (getDetails_enrich (countries h) x)))
            \<longrightarrow> heap (snd (getDetails h now reply k w)) = heap w
                \<and> cached_value (snd (getDetails h now reply k w)) now k = cached_value w now k"
      using hit_keeps_enriched [OF live, of h _ reply] by blast
    from hit(1) hit(2) hit(3) hit(4) keep
    show "sent (snd (getDetails h now reply k w)) = sent w
      \<and> next_addr (snd (getDetails h now reply k w)) = next_addr w
      \<and> map_of (entries (cache (snd (getDetails h now reply k w)))) = map_of (entries (cache w))
      \<and> (\<exists>a. cache_lookup (cache w) now k = Some a
             \<and> heap (snd (getDetails h now reply k w))
                 = (heap w)(a := snd (getDetails_enrich (countries h) (heap w a))))
      \<and> ((\<exists>x. cached_value w now k = Some (snd (getDetails_enrich (countries h) x)))
            \<longrightarrow> heap (snd (getDetails h now reply k w)) = heap w
                \<and> cached_value (snd (getDetails h now reply k w)) now k = cached_value w now k)"
      by (intro conjI)
  qed
next
  show "\<forall>d0. fst (getDetails h now0 reply0 k w0) = Inr d0
             \<and> cache_contains (cache (snd (getDetails h now0 reply0 k w0))) now k
        \<longrightarrow> heap (snd (getDetails h now reply k (snd (getDetails h now0 reply0 k w0))))
              = heap (snd (getDetails h now0 reply0 k w0))
            \<and> cached_value (snd (getDetails h now reply k (snd (getDetails h now0 reply0 k w0))))
                 now k
              = cached_value (snd (getDetails h now0 reply0 k w0)) now k"
  proof (intro allI impI)
    fix d0
    assume "fst (getDetails h now0 reply0 k w0) = Inr d0
             \<and> cache_contains (cache (snd (getDetails h now0 reply0 k w0))) now k"
    then have ok: "fst (getDetails h now0 reply0 k w0) = Inr d0"
      and live: "cache_contains (cache (snd (getDetails h now0 reply0 k w0))) now k"
      by simp_all
    from enriched_after_success [OF ok live] obtain x where
      x: "cached_value (snd (getDetails h now0 reply0 k w0)) now k
            = Some (snd (getDetails_enrich (countries h) x))"
      by blast
    from hit_keeps_enriched [OF live x, of reply]
    show "heap (snd (getDetails h now reply k (snd (getDetails h now0 reply0 k w0))))
              = heap (snd (getDetails h now0 reply0 k w0))
            \<and> cached_value (snd (getDetails h now reply k (snd (getDetails h now0 reply0 k w0))))
                 now k
              = cached_value (snd (getDetails h now0 reply0 k w0)) now k"
      by (intro conjI)
  qed
next
  show "\<forall>a. \<not> cache_contains (cache w) now k
            \<and> fst (requestDetails h now reply k w) = Inr a
        \<longrightarrow> cached_value (snd (requestDetails h now reply k w)) now k
              = Some (heap (snd (requestDetails h now reply k w)) a)
            \<and> (\<exists>r. reply = Inr r
                   \<and> body_json r = Some (heap (snd (requestDetails h now reply k w)) a))"
  proof (intro allI impI)
    fix a
    assume "\<not> cache_contains (cache w) now k \<and> fst (requestDetails h now reply k w) = Inr a"
    then have miss: "\<not> cache_contains (cache w) now k"
      and ok: "fst (requestDetails h now reply k w) = Inr a"
      by simp_all
    from requestDetails_miss_Inr [OF miss ok] obtain r raw where
      c: "reply = Inr r" "status_code r \<noteq> 429"
         "\<not> (400 \<le> status_code r \<and> status_code r < 600)"
         "body_json r = Some raw" "''headers'' \<notin> fst ` set (request_options h)"
         "0 < maxsize (cache w)" "0 < ttl (cache w)"
      by blast
    note st = requestDetails_stored [OF miss c(5) c(2) c(3) c(4) c(6) c(7)]
    from ok st(1) c(1) have a: "a = next_addr w" by simp
    have hp: "heap (snd (requestDetails h now reply k w)) a = raw"
      using st(2) c(1) a by simp
    have "cached_value (snd (requestDetails h now reply k w)) now k
            = Some (heap (snd (requestDetails h now reply k w)) a)"
      using st(3) c(1) a by (simp add: cached_value_def)
    with hp c(1) c(4)
    show "cached_value (snd (requestDetails h now reply k w)) now k
              = Some (heap (snd (requestDetails h now reply k w)) a)
            \<and> (\<exists>r. reply = Inr r
                   \<and> body_json r = Some (heap (snd (requestDetails h now reply k w)) a))"
      by simp
  qed
next
  show "\<forall>d. fst (getDetails h now reply k w) = Inr d
        \<longrightarrow> cached_value (snd (getDetails h now reply k w)) now k
              = Some (details_all (snd (getDetails h now reply k w)) d)
            \<and> (\<exists>fs. details_all (snd (getDetails h now reply k w)) d = JObj fs
                   \<and> map_of fs ''country_name'' \<noteq> None
                   \<and> map_of fs ''latitude'' \<noteq> None
                   \<and> map_of fs ''longitude'' \<noteq> None)"
  proof (intro allI impI)
    fix d
    assume ok: "fst (getDetails h now reply k w) = Inr d"
    from getDetails_success [OF ok] obtain a raw v where
      d: "d = Details a"
      and e: "getDetails_enrich (countries h) raw = (None, v)"
      and hp: "heap (snd (getDetails h now reply k w)) a = v"
      and l: "cache_lookup (cache (snd (getDetails h now reply k w))) now k = Some a"
      by blast
    have da: "details_all (snd (getDetails h now reply k w)) d = v"
      using d hp by (simp add: details_all_def)
    have cv: "cached_value (snd (getDetails h now reply k w)) now k = Some v"
      using l hp by (simp add: cached_value_def)
    from enrich_fields [OF e] da cv
    show "cached_value (snd (getDetails h now reply k w)) now k
              = Some (details_all (snd (getDetails h now reply k w)) d)
            \<and> (\<exists>fs. details_all (snd (getDetails h now reply k w)) d = JObj fs
                   \<and> map_of fs ''country_name'' \<noteq> None
                   \<and> map_of fs ''latitude'' \<noteq> None
                   \<and> map_of fs ''longitude'' \<noteq> None)"
      by auto
  qed
qed

theorem cache_holds_returned_record_witness:
  "fst (getDetails stub_handler 0 (Inr (stub_response 200)) (Some ''8.8.8.8'') fresh_world)
     = Inr (Details 0)
   \<and> cached_value
        (snd (getDetails stub_handler 0 (Inr (stub_response 200)) (Some ''8.8.8.8'') fresh_world))
        0 (Some ''8.8.8.8'')
     = Some (JObj [(''ip'', JStr ''8.8.8.8''), (''country'', JStr ''US''),
                   (''loc'', JStr ''37.751,-97.822''),
                   (''country_name'', JStr ''United States''),
                   (''latitude'', JStr ''37.751''), (''longitude'', JStr ''-97.822'')])
   \<and> cache_contains
        (cache (snd (getDetails stub_handler 0 (Inr (stub_response 200)) (Some ''8.8.8.8'')
                       fresh_world))) 5 (Some ''8.8.8.8'')
   \<and> sent (snd (getDetails stub_handler 5 (Inr (stub_response 200)) (Some ''8.8.8.8'')
                  (snd (getDetails stub_handler 0 (Inr (stub_response 200)) (Some ''8.8.8.8'')
                          fresh_world))))
     = sent (snd (getDetails stub_handler 0 (Inr (stub_response 200)) (Some ''8.8.8.8'')
                    fresh_world))
   \<and> cached_value
        (snd (getDetails stub_handler 5 (Inr (stub_response 200)) (Some ''8.8.8.8'')
                  (snd (getDetails stub_handler 0 (Inr (stub_response 200)) (Some ''8.8.8.8'')
                          fresh_world))))
        5 (Some ''8.8.8.8'')
     = Some (JObj [(''ip'', JStr ''8.8.8.8''), (''country'', JStr ''US''),
                   (''loc'', JStr ''37.751,-97.822''),
                   (''country_name'', JStr ''United States''),
                   (''latitude'', JStr ''37.751''), (''longitude'', JStr ''-97.822'')])"
proof -
  let ?k = "Some ''8.8.8.8''"
  let ?ok = "Inr (stub_response 200) :: exn + response"
  let ?w1 = "snd (getDetails stub_handler 0 ?ok ?k fresh_world)"
  let ?w2 = "snd (getDetails stub_handler 5 ?ok ?k ?w1)"
  let ?rec = "JObj [(''ip'', JStr ''8.8.8.8''), (''country'', JStr ''US''),
                   (''loc'', JStr ''37.751,-97.822''),
                   (''country_name'', JStr ''United States''),
                   (''latitude'', JStr ''37.751''), (''longitude'', JStr ''-97.822'')]"
  note first = stub_first_call(1) [of 0 ?k]
  have hp: "details_all ?w1 (Details 0) = ?rec"
    by (simp add: details_all_def stub_first_call(2))
  have live: "cache_contains (cache ?w1) 5 ?k"
    by (simp add: cache_contains_def stub_first_call(3) CACHE_TTL_def)
  have cv5: "cached_value ?w1 5 ?k = Some ?rec"
    by (simp add: cached_value_def stub_first_call(2) stub_first_call(3) CACHE_TTL_def)
  note at0 = cache_holds_returned_record
      [of fresh_world 0 ?k stub_handler ?ok, THEN conjunct2, THEN conjunct2, THEN conjunct2,
       rule_format, OF first]
  have c0: "cached_value ?w1 0 ?k = Some ?rec"
    using at0 hp by simp
  note at5 = cache_holds_returned_record
      [of ?w1 5 ?k stub_handler ?ok, THEN conjunct1, rule_format, OF live]
  have s5: "sent ?w2 = sent ?w1"
    using at5 by (elim conjE)
  note after = cache_holds_returned_record
      [where k = ?k and h = stub_handler and ?now0.0 = 0 and ?reply0.0 = ?ok
         and ?w0.0 = fresh_world and now = 5 and reply = ?ok,
       THEN conjunct2, THEN conjunct1, rule_format, OF conjI, OF first live]
  have c5: "cached_value ?w2 5 ?k = Some ?rec"
    using after cv5 by simp
  show ?thesis
    by (intro conjI) (rule first, rule c0, rule live, rule s5, rule c5)
qed

text \<open>
  Claim C1 as stated fails: after the first call of the scenario the object the cache
  holds for the key is not the raw response any more, it has the three derived fields.
\<close>

theorem cached_entry_enriched_counterexample:
  "body_json (stub_response 200) = Some stub_raw
   \<and> cached_value
        (snd (getDetails stub_handler 0 (Inr (stub_response 200)) (Some ''8.8.8.8'') fresh_world))
        0 (Some ''8.8.8.8'')
     = Some (JObj [(''ip'', JStr ''8.8.8.8''), (''country'', JStr ''US''),
                   (''loc'', JStr ''37.751,-97.822''),
                   (''country_name'', JStr ''United States''),
                   (''latitude'', JStr ''37.751''), (''longitude'', JStr ''-97.822'')])
   \<and> cached_value
        (snd (getDetails stub_handler 0 (Inr (stub_response 200)) (Some ''8.8.8.8'') fresh_world))
        0 (Some ''8.8.8.8'')
     \<noteq> Some stub_raw"
proof -
  have "cached_value
        (snd (getDetails stub_handler 0 (Inr (stub_response 200)) (Some ''8.8.8.8'') fresh_world))
        0 (Some ''8.8.8.8'')
     = Some (JObj [(''ip'', JStr ''8.8.8.8''), (''country'', JStr ''US''),
                   (''loc'', JStr ''37.751,-97.822''),
                   (''country_name'', JStr ''United States''),
                   (''latitude'', JStr ''37.751''), (''longitude'', JStr ''-97.822'')])"
    by (simp add: cached_value_def stub_first_call(2) stub_first_call(3) CACHE_TTL_def)
  then show ?thesis
    by (simp add: stub_response_def stub_raw_def)
qed

end
